theory Spec2Isabelle
  imports Main "HOL-Library.Char_ord" "HOL-Library.List_Lexorder" "HOL-Library.Option_ord"
    "HOL-Library.Product_Lexorder"
begin

section \<open>Data model of RealmDB.js\<close>

text \<open>
  The class \<open>RealmDB\<close> of \<open>src/lib/realmdb/RealmDB.js\<close>, one definition per method,
  under the method's name. A leading underscore is dropped (\<open>_encrypt\<close> is
  \<open>encrypt\<close>, \<open>_decrypt\<close> is \<open>decrypt\<close>, \<open>_syncFromRemote\<close> is
  \<open>syncFromRemote\<close>, \<open>_notifyChange\<close> is \<open>notifyChange\<close>) and \<open>write\<close> is
  \<open>write_item\<close>. A promise is the pair of its outcome and the instance it leaves:
  \<open>Inl\<close> is a rejection, \<open>Inr\<close> a fulfilment.

  A feed item is the JavaScript object handed to \<open>write\<close>. Only the fields that
  RealmDB.js reads or assigns are named; everything else the object carries is kept in
  \<open>body\<close>. The field \<open>item_id\<close> is the object's \<open>id\<close>, \<open>pk_id\<close> is its \<open>_id\<close>
  (the primary key of the local table). A field that may be \<open>undefined\<close> is an option.
  \<open>date\<close> is a time value in milliseconds.
\<close>

record feedItem =
  item_id :: "string option"
  pk_id :: "string option"
  date :: int
  status :: "string option"
  otplStatus :: "string option"
  sync :: "bool option"
  body :: string

text \<open>
  \<open>new Date(t)\<close>: a time value beyond 8.64e15 milliseconds on either side of the
  epoch gives an Invalid Date.
\<close>

datatype js_date = Date int | Invalid_Date

definition valid_time :: "int \<Rightarrow> bool" where
  "valid_time t = (- 8640000000000000 \<le> t \<and> t \<le> 8640000000000000)"

definition new_Date :: "int \<Rightarrow> js_date" where
  "new_Date t = (if valid_time t then Date t else Invalid_Date)"

text \<open>
  A document of the remote collection \<open>encrypted_feed\<close>: \<open>doc_id\<close> is its \<open>_id\<close>.
  The settings document is written without \<open>txHash\<close> and without \<open>date\<close>.
  \<open>encrypted\<close> is the ciphertext; the source stores it as base64 text, which is
  empty exactly when the ciphertext is.
\<close>

record encRecord =
  doc_id :: string
  user_id :: string
  txHash :: "string option"
  doc_date :: "js_date option"
  encrypted :: string

datatype error =
    Error string
  | TypeError
  | NetworkError
  | DuplicateKey
  | EncryptError
  | DecryptError
  | SyntaxError

datatype level = Debug | Info | Warn | Err

datatype update_result = Modified | Upserted

text \<open>
  Work started without \<open>await\<close>: the push that \<open>write\<close> fires and forgets, and the
  callbacks of \<open>failedSync.forEach(async ...)\<close> in \<open>_syncFromRemote\<close>.
\<close>

datatype task = Push feedItem | Retry feedItem

text \<open>
  What the hooks on the feed table hand to \<open>_notifyChange\<close>: \<open>{modify, id, event}\<close>
  from the \<open>updating\<close> hook and \<open>{id, event}\<close> from the \<open>creating\<close> hook. The
  modifications of an update are given as the row that results from them.
\<close>

record change =
  modify :: "feedItem option"
  change_id :: "string option"
  event :: feedItem

text \<open>The requests sent to the remote collection \<open>encrypted_feed\<close>.\<close>

datatype request =
    Find string js_date
  | FindOne string
  | UpdateOne string string encRecord

text \<open>
  The instance. \<open>db\<close> is \<open>this.db\<close>: \<open>None\<close> until ThreadDB is opened, then the rows
  of the feed table. \<open>user\<close> is \<open>this.user.id\<close>, \<open>None\<close> until the login has
  succeeded. \<open>encryptedFeed\<close> holds the documents of the remote collection.
  \<open>network\<close> decides the remote calls in the order they are made: \<open>False\<close> makes
  the next call reject, \<open>True\<close> (or an exhausted list) lets it through.
  \<open>listeners\<close> are callback references, \<open>logs\<close> is what was given to the logger
  and \<open>spawned\<close> are the tasks started and not awaited, in the order they were started.
  \<open>requests\<close> records the remote calls made and \<open>delivered\<close> the listener calls
  made, both in order.
\<close>

record state =
  db :: "feedItem list option"
  user :: "string option"
  encryptedFeed :: "encRecord list"
  network :: "bool list"
  listeners :: "nat list"
  logs :: "(level \<times> string) list"
  spawned :: "task list"
  requests :: "request list"
  delivered :: "(nat \<times> change) list"

text \<open>
  What the instance is given from outside: the key pair (\<open>privateKey.public.encrypt\<close>,
  \<open>privateKey.decrypt\<close>; \<open>None\<close> is a rejected promise) and
  \<open>JSON.stringify\<close>/\<open>JSON.parse\<close> with the text encoder and decoder, for feed
  items and for settings values (\<open>None\<close> is a thrown SyntaxError);
  \<open>empty_object\<close> is the settings value \<open>{}\<close>. \<open>listener_throws cb data\<close> says
  whether the callback with reference \<open>cb\<close> throws when called with \<open>data\<close>.
\<close>

record 'a env =
  public_encrypt :: "string \<Rightarrow> string option"
  private_decrypt :: "string \<Rightarrow> string option"
  stringify_item :: "feedItem \<Rightarrow> string"
  parse_item :: "string \<Rightarrow> feedItem option"
  stringify_settings :: "'a \<Rightarrow> string"
  parse_settings :: "string \<Rightarrow> 'a option"
  empty_object :: "'a"
  listener_throws :: "nat \<Rightarrow> change \<Rightarrow> bool"

section \<open>Helpers of the language\<close>

text \<open>JavaScript truthiness of a string that may be undefined.\<close>

definition truthy :: "string option \<Rightarrow> bool" where
  "truthy s = (case s of None \<Rightarrow> False | Some v \<Rightarrow> v \<noteq> [])"

text \<open>A value inside a template string: \<open>undefined\<close> prints as its name.\<close>

definition template :: "string option \<Rightarrow> string" where
  "template s = (case s of None \<Rightarrow> ''undefined'' | Some v \<Rightarrow> v)"

text \<open>\<open>String.prototype.includes\<close>.\<close>

fun includes_str :: "string \<Rightarrow> string \<Rightarrow> bool" where
  "includes_str [] sub = (sub = [])"
| "includes_str (c # cs) sub = (take (length sub) (c # cs) = sub \<or> includes_str cs sub)"

definition log_msg :: "level \<Rightarrow> string \<Rightarrow> state \<Rightarrow> state" where
  "log_msg lvl msg st = st\<lparr>logs := logs st @ [(lvl, msg)]\<rparr>"

section \<open>Listeners\<close>

definition on :: "state \<Rightarrow> nat \<Rightarrow> state" where
  "on st cb = st\<lparr>listeners := listeners st @ [cb]\<rparr>"

definition off :: "state \<Rightarrow> nat \<Rightarrow> state" where
  "off st cb = st\<lparr>listeners := filter (\<lambda>l. l \<noteq> cb) (listeners st)\<rparr>"

text \<open>
  \<open>this.listeners.map(cb => cb(data))\<close>: the outcome of the \<open>map\<close> and the calls
  made, in order. The exception of a callback ends the \<open>map\<close>.
\<close>

fun call_listeners :: "(nat \<Rightarrow> 'd \<Rightarrow> bool) \<Rightarrow> nat list \<Rightarrow> 'd \<Rightarrow> (error + unit) \<times> (nat \<times> 'd) list" where
  "call_listeners throws [] data = (Inr (), [])"
| "call_listeners throws (cb # cbs) data =
     (if throws cb data then (Inl (Error ''listener''), [(cb, data)])
      else (case call_listeners throws cbs data of (r, calls) \<Rightarrow> (r, (cb, data) # calls)))"

definition notifyChange :: "'a env \<Rightarrow> state \<Rightarrow> change \<Rightarrow> (error + unit) \<times> state" where
  "notifyChange env st data =
     (let st1 = log_msg Debug ''notifyChange'' st in
      case call_listeners (listener_throws env) (listeners st1) data of
        (r, calls) \<Rightarrow> (r, st1\<lparr>delivered := delivered st1 @ calls\<rparr>))"

text \<open>The two hooks that \<open>init\<close> installs on the feed table.\<close>

definition hook_updating ::
  "'a env \<Rightarrow> state \<Rightarrow> feedItem \<Rightarrow> string option \<Rightarrow> feedItem \<Rightarrow> (error + unit) \<times> state" where
  "hook_updating env st modifications k obj =
     notifyChange env st \<lparr>modify = Some modifications, change_id = k, event = obj\<rparr>"

definition hook_creating ::
  "'a env \<Rightarrow> state \<Rightarrow> string option \<Rightarrow> feedItem \<Rightarrow> (error + unit) \<times> state" where
  "hook_creating env st k obj =
     notifyChange env st \<lparr>modify = None, change_id = k, event = obj\<rparr>"

section \<open>The local store\<close>

text \<open>
  Modelled from the spec: the local store adapter (ThreadDB, outside the source tree) is
  an ordered collection with insert or update by key and change-notification hooks.
  \<open>save\<close> replaces the row with the same \<open>_id\<close> or adds a new row. Before a row is
  written the table runs the hook of the event, \<open>updating\<close> when a row with the key
  exists and \<open>creating\<close> otherwise; an exception in the hook makes the whole \<open>save\<close>
  reject and nothing of it is stored.
\<close>

fun upsert :: "feedItem \<Rightarrow> feedItem list \<Rightarrow> feedItem list" where
  "upsert i [] = [i]"
| "upsert i (r # rs) = (if pk_id r = pk_id i then i # rs else r # upsert i rs)"

definition put_row ::
  "'a env \<Rightarrow> state \<Rightarrow> feedItem list \<Rightarrow> feedItem \<Rightarrow> (error + feedItem list) \<times> state" where
  "put_row env st rows i =
     (case (case find (\<lambda>r. pk_id r = pk_id i) rows of
              None \<Rightarrow> hook_creating env st (pk_id i) i
            | Some old \<Rightarrow> hook_updating env st i (pk_id i) old) of
        (Inl e, st1) \<Rightarrow> (Inl e, st1)
      | (Inr u, st1) \<Rightarrow> (Inr (upsert i rows), st1))"

fun put_rows ::
  "'a env \<Rightarrow> state \<Rightarrow> feedItem list \<Rightarrow> feedItem list \<Rightarrow> (error + feedItem list) \<times> state" where
  "put_rows env st rows [] = (Inr rows, st)"
| "put_rows env st rows (i # rest) =
     (case put_row env st rows i of
        (Inl e, st1) \<Rightarrow> (Inl e, st1)
      | (Inr rows1, st1) \<Rightarrow> put_rows env st1 rows1 rest)"

definition Feed_save :: "'a env \<Rightarrow> state \<Rightarrow> feedItem list \<Rightarrow> (error + unit) \<times> state" where
  "Feed_save env st items =
     (case db st of
        None \<Rightarrow> (Inl TypeError, st)
      | Some rows \<Rightarrow>
          (case put_rows env st rows items of
             (Inl e, st1) \<Rightarrow> (Inl e, st1)
           | (Inr rows1, st1) \<Rightarrow> (Inr (), st1\<lparr>db := Some rows1\<rparr>)))"

definition Feed_findById :: "feedItem list \<Rightarrow> string \<Rightarrow> feedItem option" where
  "Feed_findById rows k = find (\<lambda>r. pk_id r = Some k) rows"

text \<open>
  Modelled from the spec: \<open>FeedTable.update(matcher, {$set: {sync: b}})\<close> sets the flag
  of the rows the matcher \<open>{_id: k}\<close> selects, running the \<open>updating\<close> hook for each.
  The source does not await it: a missing \<open>this.db\<close> or an exception in a hook leaves
  the table as it was, and the error is lost.
\<close>

fun update_rows ::
  "'a env \<Rightarrow> state \<Rightarrow> string option \<Rightarrow> bool \<Rightarrow> feedItem list \<Rightarrow> (error + feedItem list) \<times> state" where
  "update_rows env st k b [] = (Inr [], st)"
| "update_rows env st k b (r # rs) =
     (if pk_id r = k
      then
        (case hook_updating env st (r\<lparr>sync := Some b\<rparr>) (pk_id r) r of
           (Inl e, st1) \<Rightarrow> (Inl e, st1)
         | (Inr u, st1) \<Rightarrow>
             (case update_rows env st1 k b rs of
                (Inl e, st2) \<Rightarrow> (Inl e, st2)
              | (Inr rs1, st2) \<Rightarrow> (Inr (r\<lparr>sync := Some b\<rparr> # rs1), st2)))
      else
        (case update_rows env st k b rs of
           (Inl e, st2) \<Rightarrow> (Inl e, st2)
         | (Inr rs1, st2) \<Rightarrow> (Inr (r # rs1), st2)))"

definition FeedTable_update :: "'a env \<Rightarrow> state \<Rightarrow> string option \<Rightarrow> bool \<Rightarrow> state" where
  "FeedTable_update env st k b =
     (case db st of
        None \<Rightarrow> st
      | Some rows \<Rightarrow>
          (case update_rows env st k b rows of
             (Inl e, st1) \<Rightarrow> st1
           | (Inr rows1, st1) \<Rightarrow> st1\<lparr>db := Some rows1\<rparr>))"

text \<open>
  \<open>FeedTable.orderBy('date')\<close>: the rows in the order of the index on \<open>date\<close>, which
  orders rows with the same date by their primary key (strings compared character by
  character).
\<close>

definition orderBy_date :: "feedItem list \<Rightarrow> feedItem list" where
  "orderBy_date rows = sort_key (\<lambda>r. (date r, pk_id r)) rows"

text \<open>
  How the table evaluates the chain \<open>offset(skip).filter(P).limit(lim).toArray()\<close> on
  the rows a cursor runs over. For each row the filter given to \<open>filter\<close> is tried
  first, whatever its place in the chain; a row that fails it is passed over. The
  offset acts on the first row that passes: that row is skipped and the cursor is
  advanced by \<open>skip\<close> rows, counted from it, of whatever kind. From then on every row
  that passes the filter is taken until \<open>lim\<close> rows are there. \<open>offset\<close> with a
  number that is not positive adds nothing to the chain; \<open>limit\<close> with such a number
  takes no row.
\<close>

fun collect :: "(feedItem \<Rightarrow> bool) \<Rightarrow> nat \<Rightarrow> nat \<Rightarrow> feedItem list \<Rightarrow> feedItem list" where
  "collect P skip lim [] = []"
| "collect P skip lim (r # rs) =
     (if \<not> P r then collect P skip lim rs
      else if 0 < skip then collect P 0 lim (drop (skip - 1) rs)
      else if lim = 0 then []
      else r # collect P 0 (lim - 1) rs)"

section \<open>The remote collection\<close>

text \<open>
  One remote call: it is recorded, consumes the next entry of \<open>network\<close> and says
  whether the call gets through.
\<close>

definition remote_call :: "state \<Rightarrow> request \<Rightarrow> bool \<times> state" where
  "remote_call st req =
     (case network st of
        [] \<Rightarrow> (True, st\<lparr>requests := requests st @ [req]\<rparr>)
      | b # bs \<Rightarrow> (b, st\<lparr>network := bs, requests := requests st @ [req]\<rparr>))"

definition next_call_ok :: "state \<Rightarrow> bool" where
  "next_call_ok st = (case network st of [] \<Rightarrow> True | b # bs \<Rightarrow> b)"

text \<open>
  \<open>updateOne({_id, user_id}, doc, {upsert: true})\<close> on the remote collection, whose
  \<open>_id\<close> is its primary key: the document with that \<open>_id\<close> is replaced when it
  belongs to the user, inserted when there is none, and the insert of a second
  document with the same \<open>_id\<close> is refused.
\<close>

fun replace_doc :: "encRecord \<Rightarrow> encRecord list \<Rightarrow> encRecord list" where
  "replace_doc d [] = []"
| "replace_doc d (x # xs) = (if doc_id x = doc_id d then d # xs else x # replace_doc d xs)"

definition updateOne :: "state \<Rightarrow> string \<Rightarrow> string \<Rightarrow> encRecord \<Rightarrow> (error + update_result) \<times> state" where
  "updateOne st k uid doc =
     (case remote_call st (UpdateOne k uid doc) of
        (False, st1) \<Rightarrow> (Inl NetworkError, st1)
      | (True, st1) \<Rightarrow>
          (case find (\<lambda>d. doc_id d = k) (encryptedFeed st1) of
             None \<Rightarrow> (Inr Upserted, st1\<lparr>encryptedFeed := encryptedFeed st1 @ [doc]\<rparr>)
           | Some d \<Rightarrow>
               if user_id d = uid
               then (Inr Modified, st1\<lparr>encryptedFeed := replace_doc doc (encryptedFeed st1)\<rparr>)
               else (Inl DuplicateKey, st1)))"

text \<open>
  The documents that \<open>{user_id: uid, date: {$gt: w}}\<close> selects. A document without a
  date does not match; a comparison in which one side is an Invalid Date holds for
  no document.
\<close>

fun later_than :: "js_date option \<Rightarrow> js_date \<Rightarrow> bool" where
  "later_than (Some (Date t)) (Date w) = (w < t)"
| "later_than d w = False"

definition find_matches :: "string \<Rightarrow> js_date \<Rightarrow> encRecord list \<Rightarrow> encRecord list" where
  "find_matches uid w docs = filter (\<lambda>d. user_id d = uid \<and> later_than (doc_date d) w) docs"

text \<open>\<open>encryptedFeed.find({user_id, date: {$gt: new Date(lastSync)}})\<close>.\<close>

definition find_newer :: "state \<Rightarrow> string \<Rightarrow> int \<Rightarrow> (error + encRecord list) \<times> state" where
  "find_newer st uid w =
     (case remote_call st (Find uid (new_Date w)) of
        (False, st1) \<Rightarrow> (Inl NetworkError, st1)
      | (True, st1) \<Rightarrow> (Inr (find_matches uid (new_Date w) (encryptedFeed st1)), st1))"

definition findOne :: "state \<Rightarrow> string \<Rightarrow> (error + encRecord option) \<times> state" where
  "findOne st k =
     (case remote_call st (FindOne k) of
        (False, st1) \<Rightarrow> (Inl NetworkError, st1)
      | (True, st1) \<Rightarrow> (Inr (find (\<lambda>d. doc_id d = k) (encryptedFeed st1)), st1))"

section \<open>The write path\<close>

text \<open>
  The body of the \<open>try\<close> block of \<open>_encrypt\<close>: serialize, encrypt with the public
  key, build the key \<open>txHash_userId\<close> and upsert the mirror.
\<close>

definition encrypt_try :: "'a env \<Rightarrow> state \<Rightarrow> feedItem \<Rightarrow> (error + update_result) \<times> state" where
  "encrypt_try env st feedItem =
     (let msg = stringify_item env feedItem in
      case public_encrypt env msg of
        None \<Rightarrow> (Inl EncryptError, st)
      | Some enc \<Rightarrow>
          (let txh = item_id feedItem in
           case user st of
             None \<Rightarrow> (Inl TypeError, st)
           | Some uid \<Rightarrow>
               (let k = template txh @ ''_'' @ uid in
                case updateOne st k uid
                       \<lparr>doc_id = k, user_id = uid, txHash = txh,
                        doc_date = Some (new_Date (date feedItem)), encrypted = enc\<rparr> of
                  (Inl e, st1) \<Rightarrow> (Inl e, st1)
                | (Inr res, st1) \<Rightarrow> (Inr res, log_msg Debug ''_encrypt result:'' st1))))"

text \<open>
  \<open>_encrypt\<close>: the promise it returns is \<open>Inl\<close> when rejected and \<open>Inr\<close> when
  fulfilled, with \<open>None\<close> for \<open>undefined\<close>. Its \<open>catch\<close> block logs and falls
  through.
\<close>

definition encrypt :: "'a env \<Rightarrow> state \<Rightarrow> feedItem \<Rightarrow> (error + update_result option) \<times> state" where
  "encrypt env st feedItem =
     (case encrypt_try env st feedItem of
        (Inl e, st1) \<Rightarrow> (Inr None, log_msg Err ''error _encrypt feedItem:'' st1)
      | (Inr res, st1) \<Rightarrow> (Inr (Some res), st1))"

text \<open>
  A spawned task run to its end. \<open>Push\<close> is \<open>this._encrypt(feedItem).catch(handler)\<close>
  of \<open>write\<close>; \<open>Retry\<close> is one callback of the \<open>forEach\<close> in \<open>_syncFromRemote\<close>:
  \<open>await this._encrypt(item)\<close>, then the update of the flag.
\<close>

fun run_task :: "'a env \<Rightarrow> state \<Rightarrow> task \<Rightarrow> state" where
  "run_task env st (Push feedItem) =
     (case encrypt env st feedItem of
        (Inl e, st1) \<Rightarrow>
          FeedTable_update env (log_msg Err ''failed saving feedItem to remote'' st1)
            (item_id feedItem) False
      | (Inr r, st1) \<Rightarrow> st1)"
| "run_task env st (Retry item) =
     (case encrypt env st item of
        (Inl e, st1) \<Rightarrow> st1
      | (Inr r, st1) \<Rightarrow> FeedTable_update env st1 (item_id item) True)"

text \<open>All spawned tasks run to their end, in the order they were started.\<close>

definition settle :: "'a env \<Rightarrow> state \<Rightarrow> state" where
  "settle env st = fold (\<lambda>t s. run_task env s t) (spawned st) (st\<lparr>spawned := []\<rparr>)"

text \<open>
  \<open>write\<close> (here \<open>write_item\<close>) returns the outcome of its promise, the caller's
  object as the call leaves it, and the instance. The push is spawned, not awaited.
\<close>

definition write_item :: "'a env \<Rightarrow> state \<Rightarrow> feedItem \<Rightarrow> (error + unit) \<times> feedItem \<times> state" where
  "write_item env st feedItem =
     (if \<not> truthy (item_id feedItem)
      then (Inl (Error ''feed item missing id''), feedItem,
            log_msg Warn ''Feed item missing _id'' st)
      else
        (let feedItem1 = feedItem\<lparr>pk_id := item_id feedItem\<rparr> in
         case Feed_save env st [feedItem1] of
           (Inl e, st1) \<Rightarrow> (Inl e, feedItem1, st1)
         | (Inr u, st1) \<Rightarrow> (Inr (), feedItem1, st1\<lparr>spawned := spawned st1 @ [Push feedItem1]\<rparr>)))"

definition read :: "state \<Rightarrow> string \<Rightarrow> error + feedItem option" where
  "read st k =
     (case db st of
        None \<Rightarrow> Inl TypeError
      | Some rows \<Rightarrow> Inr (Feed_findById rows k))"

section \<open>Reconciliation\<close>

text \<open>
  \<open>orderBy('date').reverse().limit(1).toArray().then(r => get(r, '[0].date', 0))\<close>.
\<close>

definition lastSync :: "feedItem list \<Rightarrow> int" where
  "lastSync rows = (case take 1 (rev (orderBy_date rows)) of [] \<Rightarrow> 0 | r # rest \<Rightarrow> date r)"

text \<open>The first two statements of \<open>_syncFromRemote\<close>: the watermark and the query.\<close>

definition fetch_new :: "state \<Rightarrow> (error + int \<times> encRecord list) \<times> state" where
  "fetch_new st =
     (case db st of
        None \<Rightarrow> (Inl TypeError, st)
      | Some rows \<Rightarrow>
          (let w = lastSync rows in
           case user st of
             None \<Rightarrow> (Inl TypeError, st)
           | Some uid \<Rightarrow>
               (case find_newer st uid w of
                  (Inl e, st1) \<Rightarrow> (Inl e, st1)
                | (Inr newItems, st1) \<Rightarrow> (Inr (w, newItems), st1))))"

text \<open>The body of the \<open>try\<close> block of \<open>_decrypt\<close>: decrypt with the private key and parse.\<close>

definition decrypt_try :: "'a env \<Rightarrow> encRecord \<Rightarrow> error + feedItem" where
  "decrypt_try env item =
     (case private_decrypt env (encrypted item) of
        None \<Rightarrow> Inl DecryptError
      | Some decrypted \<Rightarrow>
          (case parse_item env decrypted of
             None \<Rightarrow> Inl SyntaxError
           | Some v \<Rightarrow> Inr v))"

text \<open>
  \<open>_decrypt\<close>: the \<open>catch\<close> block logs a warning and the promise is fulfilled with
  \<open>undefined\<close>.
\<close>

definition decrypt :: "'a env \<Rightarrow> state \<Rightarrow> encRecord \<Rightarrow> feedItem option \<times> state" where
  "decrypt env st item =
     (case decrypt_try env item of
        Inl e \<Rightarrow> (None, log_msg Warn ''failed _decrypt'' st)
      | Inr v \<Rightarrow> (Some v, st))"

text \<open>The value the promise of \<open>_decrypt\<close> is fulfilled with.\<close>

definition decrypted_value :: "'a env \<Rightarrow> encRecord \<Rightarrow> feedItem option" where
  "decrypted_value env item = (case decrypt_try env item of Inl e \<Rightarrow> None | Inr v \<Rightarrow> Some v)"

text \<open>\<open>Promise.all(filtered.map(i => this._decrypt(i)))\<close>.\<close>

fun decrypt_all :: "'a env \<Rightarrow> state \<Rightarrow> encRecord list \<Rightarrow> feedItem option list \<times> state" where
  "decrypt_all env st [] = ([], st)"
| "decrypt_all env st (i # rest) =
     (case decrypt env st i of
        (r, st1) \<Rightarrow> (case decrypt_all env st1 rest of (rs, st2) \<Rightarrow> (r # rs, st2)))"

text \<open>\<open>.filter(_ => _)\<close> on the decrypted values: a parsed feed item is an object.\<close>

fun filter_defined :: "'b option list \<Rightarrow> 'b list" where
  "filter_defined [] = []"
| "filter_defined (None # xs) = filter_defined xs"
| "filter_defined (Some x # xs) = x # filter_defined xs"

definition eligible :: "encRecord \<Rightarrow> bool" where
  "eligible d = (\<not> includes_str (doc_id d) ''settings'' \<and> truthy (txHash d))"

text \<open>The block \<open>if (filtered.length) { ... }\<close>.\<close>

definition merge_filtered :: "'a env \<Rightarrow> state \<Rightarrow> encRecord list \<Rightarrow> (error + unit) \<times> state" where
  "merge_filtered env st filtered =
     (if filtered \<noteq> []
      then
        (case decrypt_all env st filtered of
           (rs, st1) \<Rightarrow>
             (let decrypted = filter_defined rs;
                  st2 = log_msg Debug ''_syncFromRemote'' st1
              in Feed_save env st2 decrypted))
      else (Inr (), st))"

text \<open>
  \<open>_syncFromRemote\<close>. The callbacks of \<open>failedSync.forEach\<close> are spawned; the
  promise of \<open>_syncFromRemote\<close> is fulfilled without waiting for them.
\<close>

definition syncFromRemote :: "'a env \<Rightarrow> state \<Rightarrow> (error + unit) \<times> state" where
  "syncFromRemote env st =
     (case fetch_new st of
        (Inl e, st1) \<Rightarrow> (Inl e, st1)
      | (Inr (w, newItems), st1) \<Rightarrow>
          (let filtered = filter eligible newItems;
               st2 = log_msg Debug ''_syncFromRemote'' st1 in
           case merge_filtered env st2 filtered of
             (Inl e, st3) \<Rightarrow> (Inl e, st3)
           | (Inr u, st3) \<Rightarrow>
               (case db st3 of
                  None \<Rightarrow> (Inl TypeError, st3)
                | Some rows \<Rightarrow>
                    (let failedSync = filter (\<lambda>r. sync r = Some False) rows;
                         st4 = (if failedSync \<noteq> []
                                then (log_msg Debug ''_syncFromRemote: saving failed items'' st3)
                                       \<lparr>spawned := spawned st3 @ map Retry failedSync\<rparr>
                                else st3)
                     in (Inr (), log_msg Info ''_syncfromremote done'' st4)))))"

section \<open>Feed page\<close>

definition excluded_tag :: "string option \<Rightarrow> bool" where
  "excluded_tag v =
     (case v of None \<Rightarrow> False | Some s \<Rightarrow> s \<in> set [''deleted'', ''cancelled'', ''canceled''])"

definition shown :: "feedItem \<Rightarrow> bool" where
  "shown i = (excluded_tag (status i) = False \<and> excluded_tag (otplStatus i) = False)"

text \<open>
  \<open>getFeedPage\<close>: the chain \<open>orderBy('date').reverse().offset(offset).filter(...)
  .limit(numResults).toArray()\<close> inside \<open>try\<close>; the \<open>catch\<close> block logs a warning
  and returns the empty array.
\<close>

definition getFeedPage :: "state \<Rightarrow> int \<Rightarrow> int \<Rightarrow> (error + feedItem list) \<times> state" where
  "getFeedPage st numResults offset =
     (case db st of
        None \<Rightarrow> (Inr [], log_msg Warn ''getFeedPage failed:'' st)
      | Some rows \<Rightarrow>
          (let res = collect shown (nat offset) (nat numResults) (rev (orderBy_date rows))
           in (Inr res, log_msg Debug ''getFeedPage result:'' st)))"

text \<open>
  The page as the specification words it: exclusion first, then the offset, then the
  limit. It is compared with \<open>getFeedPage\<close> below.
\<close>

definition page_exclusion_first :: "feedItem list \<Rightarrow> int \<Rightarrow> int \<Rightarrow> feedItem list" where
  "page_exclusion_first rows numResults offset =
     take (nat numResults) (drop (nat offset) (filter shown (rev (orderBy_date rows))))"

section \<open>Settings\<close>

definition encryptSettings :: "'a env \<Rightarrow> state \<Rightarrow> 'a \<Rightarrow> (error + update_result) \<times> state" where
  "encryptSettings env st settings =
     (let msg = stringify_settings env settings in
      case public_encrypt env msg of
        None \<Rightarrow> (Inl EncryptError, st)
      | Some enc \<Rightarrow>
          (case user st of
             None \<Rightarrow> (Inl TypeError, st)
           | Some uid \<Rightarrow>
               (let k = uid @ ''_settings'';
                    st1 = log_msg Debug ''encryptSettings:'' st
                in updateOne st1 k uid
                     \<lparr>doc_id = k, user_id = uid, txHash = None, doc_date = None,
                      encrypted = enc\<rparr>)))"

definition decryptSettings :: "'a env \<Rightarrow> state \<Rightarrow> (error + 'a) \<times> state" where
  "decryptSettings env st =
     (case user st of
        None \<Rightarrow> (Inl TypeError, st)
      | Some uid \<Rightarrow>
          (let k = uid @ ''_settings'' in
           case findOne st k of
             (Inl e, st1) \<Rightarrow> (Inl e, st1)
           | (Inr encryptedSettings, st1) \<Rightarrow>
               (let enc = (case encryptedSettings of None \<Rightarrow> [] | Some d \<Rightarrow> encrypted d) in
                if enc \<noteq> []
                then
                  (case private_decrypt env enc of
                     None \<Rightarrow> (Inl DecryptError, st1)
                   | Some decrypted \<Rightarrow>
                       (case parse_settings env decrypted of
                          None \<Rightarrow> (Inl SyntaxError, st1)
                        | Some settings \<Rightarrow> (Inr settings, log_msg Debug ''decryptSettings:'' st1)))
                else (Inr (empty_object env), st1))))"

section \<open>A small instance\<close>

text \<open>
  A toy key pair and codec on which the functions above can be run: the key refuses
  messages longer than eight bytes, a ciphertext is the message reversed behind a
  marker, and an item is serialized as its body. The callback with reference 1 throws
  on every event, the others never do.
\<close>

definition example_env :: "string env" where
  "example_env =
     \<lparr>public_encrypt = (\<lambda>m. if length m > 8 then None else Some (CHR ''#'' # rev m)),
      private_decrypt = (\<lambda>c. case c of [] \<Rightarrow> None
                               | x # m \<Rightarrow> if x = CHR ''#'' then Some (rev m) else None),
      stringify_item = body,
      parse_item = (\<lambda>s. if s = [] then None
                         else Some \<lparr>item_id = Some s, pk_id = Some s, date = 7, status = None,
                                    otplStatus = None, sync = None, body = s\<rparr>),
      stringify_settings = (\<lambda>s. s),
      parse_settings = Some,
      empty_object = ''{}'',
      listener_throws = (\<lambda>cb data. cb = 1)\<rparr>"

definition example_item :: "string \<Rightarrow> int \<Rightarrow> string option \<Rightarrow> feedItem" where
  "example_item k t tag =
     \<lparr>item_id = Some k, pk_id = Some k, date = t, status = tag, otplStatus = None,
      sync = None, body = k\<rparr>"

definition example_state :: "feedItem list \<Rightarrow> encRecord list \<Rightarrow> bool list \<Rightarrow> state" where
  "example_state rows docs net =
     \<lparr>db = Some rows, user = Some ''u1'', encryptedFeed = docs, network = net,
      listeners = [], logs = [], spawned = [], requests = [], delivered = []\<rparr>"

text \<open>
  Four remote documents of user \<open>u1\<close>: a mirror that decrypts, one whose ciphertext is
  damaged, one without \<open>txHash\<close>, and one whose key carries the settings marker.
\<close>

definition example_docs :: "encRecord list" where
  "example_docs =
     [\<lparr>doc_id = ''t1_u1'', user_id = ''u1'', txHash = Some ''t1'', doc_date = Some (Date 3),
       encrypted = ''#1t''\<rparr>,
      \<lparr>doc_id = ''t2_u1'', user_id = ''u1'', txHash = Some ''t2'', doc_date = Some (Date 4),
       encrypted = ''damaged''\<rparr>,
      \<lparr>doc_id = ''t3_u1'', user_id = ''u1'', txHash = None, doc_date = Some (Date 5),
       encrypted = ''#3t''\<rparr>,
      \<lparr>doc_id = ''u1_settings'', user_id = ''u1'', txHash = Some ''t4'', doc_date = Some (Date 6),
       encrypted = ''#4t''\<rparr>]"

section \<open>Facts about listeners and the local store\<close>

lemmas run_defs = write_item_def Feed_save_def put_row_def hook_creating_def hook_updating_def
  notifyChange_def settle_def encrypt_def encrypt_try_def updateOne_def
  remote_call_def log_msg_def FeedTable_update_def example_env_def example_state_def
  example_item_def truthy_def template_def Let_def read_def Feed_findById_def
  new_Date_def valid_time_def

lemmas sync_defs = syncFromRemote_def fetch_new_def find_newer_def find_matches_def lastSync_def
  orderBy_date_def merge_filtered_def eligible_def decrypt_def decrypt_try_def
  decrypted_value_def next_call_ok_def example_docs_def

lemma db_log_msg [simp]: "db (log_msg lvl msg st) = db st"
  by (simp add: log_msg_def)

lemma call_listeners_all:
  "\<forall>cb \<in> set cbs. \<not> throws cb data \<Longrightarrow>
     call_listeners throws cbs data = (Inr (), map (\<lambda>cb. (cb, data)) cbs)"
  by (induction cbs) auto

lemma call_listeners_outcome:
  "fst (call_listeners throws cbs data)
     = (if \<exists>cb \<in> set cbs. throws cb data then Inl (Error ''listener'') else Inr ())"
proof (induction cbs)
  case Nil
  then show ?case by simp
next
  case (Cons cb cbs)
  obtain r calls where c: "call_listeners throws cbs data = (r, calls)"
    by (cases "call_listeners throws cbs data")
  with Cons show ?case by (cases "throws cb data") auto
qed

lemma call_listeners_some:
  "\<exists>cb \<in> set cbs. throws cb data \<Longrightarrow>
     fst (call_listeners throws cbs data) = Inl (Error ''listener'')"
  by (simp add: call_listeners_outcome)

lemma call_listeners_prefix:
  "snd (call_listeners throws cbs data)
     = map (\<lambda>cb. (cb, data))
         (takeWhile (\<lambda>cb. \<not> throws cb data) cbs @ take 1 (dropWhile (\<lambda>cb. \<not> throws cb data) cbs))"
  by (induction cbs) (auto split: prod.splits)

lemma notifyChange_frame:
  "db (snd (notifyChange env st c)) = db st
   \<and> listeners (snd (notifyChange env st c)) = listeners st
   \<and> spawned (snd (notifyChange env st c)) = spawned st
   \<and> user (snd (notifyChange env st c)) = user st
   \<and> encryptedFeed (snd (notifyChange env st c)) = encryptedFeed st
   \<and> network (snd (notifyChange env st c)) = network st
   \<and> requests (snd (notifyChange env st c)) = requests st"
  by (simp add: notifyChange_def log_msg_def Let_def split: prod.splits)

lemma notifyChange_quiet:
  "\<forall>cb \<in> set (listeners st). \<not> listener_throws env cb c \<Longrightarrow>
     fst (notifyChange env st c) = Inr ()"
  using call_listeners_all [of "listeners st" "listener_throws env" c]
  by (simp add: notifyChange_def log_msg_def Let_def)

lemma put_row_frame:
  "db (snd (put_row env st rows i)) = db st
   \<and> listeners (snd (put_row env st rows i)) = listeners st
   \<and> spawned (snd (put_row env st rows i)) = spawned st
   \<and> user (snd (put_row env st rows i)) = user st
   \<and> encryptedFeed (snd (put_row env st rows i)) = encryptedFeed st
   \<and> network (snd (put_row env st rows i)) = network st
   \<and> requests (snd (put_row env st rows i)) = requests st"
proof (cases "find (\<lambda>r. pk_id r = pk_id i) rows")
  case None
  then show ?thesis
    using notifyChange_frame [of env st "\<lparr>modify = None, change_id = pk_id i, event = i\<rparr>"]
    by (auto simp: put_row_def hook_creating_def split: prod.splits sum.splits)
next
  case (Some old)
  then show ?thesis
    using notifyChange_frame [of env st "\<lparr>modify = Some i, change_id = pk_id i, event = old\<rparr>"]
    by (auto simp: put_row_def hook_updating_def split: prod.splits sum.splits)
qed

lemma put_row_quiet:
  assumes "\<forall>cb \<in> set (listeners st). \<forall>c. \<not> listener_throws env cb c"
  shows "fst (put_row env st rows i) = Inr (upsert i rows)"
proof (cases "find (\<lambda>r. pk_id r = pk_id i) rows")
  case None
  then show ?thesis
    using assms notifyChange_quiet [of st env "\<lparr>modify = None, change_id = pk_id i, event = i\<rparr>"]
    by (auto simp: put_row_def hook_creating_def split: prod.splits sum.splits)
next
  case (Some old)
  then show ?thesis
    using assms notifyChange_quiet [of st env "\<lparr>modify = Some i, change_id = pk_id i, event = old\<rparr>"]
    by (auto simp: put_row_def hook_updating_def split: prod.splits sum.splits)
qed

lemma put_rows_frame:
  "db (snd (put_rows env st rows items)) = db st
   \<and> listeners (snd (put_rows env st rows items)) = listeners st
   \<and> spawned (snd (put_rows env st rows items)) = spawned st
   \<and> user (snd (put_rows env st rows items)) = user st
   \<and> encryptedFeed (snd (put_rows env st rows items)) = encryptedFeed st
   \<and> network (snd (put_rows env st rows items)) = network st
   \<and> requests (snd (put_rows env st rows items)) = requests st"
proof (induction items arbitrary: st rows)
  case Nil
  then show ?case by simp
next
  case (Cons i items)
  obtain r st1 where p: "put_row env st rows i = (r, st1)" by (cases "put_row env st rows i")
  from put_row_frame [of env st rows i] p
  have f: "db st1 = db st \<and> listeners st1 = listeners st \<and> spawned st1 = spawned st
           \<and> user st1 = user st \<and> encryptedFeed st1 = encryptedFeed st
           \<and> network st1 = network st \<and> requests st1 = requests st"
    by simp
  show ?case
  proof (cases r)
    case (Inl e)
    then show ?thesis using p f by simp
  next
    case (Inr rows1)
    then show ?thesis using p f Cons.IH [of st1 rows1] by simp
  qed
qed

lemma put_rows_quiet:
  assumes "\<forall>cb \<in> set (listeners st). \<forall>c. \<not> listener_throws env cb c"
  shows "fst (put_rows env st rows items) = Inr (fold upsert items rows)"
  using assms
proof (induction items arbitrary: st rows)
  case Nil
  then show ?case by simp
next
  case (Cons i items)
  obtain r st1 where p: "put_row env st rows i = (r, st1)" by (cases "put_row env st rows i")
  from put_row_quiet [OF Cons.prems, of rows i] p have r: "r = Inr (upsert i rows)" by simp
  from put_row_frame [of env st rows i] p have "listeners st1 = listeners st" by simp
  with Cons.prems have "\<forall>cb \<in> set (listeners st1). \<forall>c. \<not> listener_throws env cb c" by simp
  from Cons.IH [OF this, of "upsert i rows"] p r show ?case by simp
qed

lemma Feed_save_frame:
  "listeners (snd (Feed_save env st items)) = listeners st
   \<and> spawned (snd (Feed_save env st items)) = spawned st
   \<and> user (snd (Feed_save env st items)) = user st
   \<and> encryptedFeed (snd (Feed_save env st items)) = encryptedFeed st
   \<and> network (snd (Feed_save env st items)) = network st
   \<and> requests (snd (Feed_save env st items)) = requests st"
proof (cases "db st")
  case None
  then show ?thesis by (simp add: Feed_save_def)
next
  case (Some rows)
  then show ?thesis using put_rows_frame [of env st rows items]
    by (auto simp: Feed_save_def split: prod.splits sum.splits)
qed

lemma Feed_save_quiet:
  assumes "db st = Some rows"
      and "\<forall>cb \<in> set (listeners st). \<forall>c. \<not> listener_throws env cb c"
  shows "fst (Feed_save env st items) = Inr ()
         \<and> db (snd (Feed_save env st items)) = Some (fold upsert items rows)"
  using assms(1) put_rows_quiet [OF assms(2), of rows items]
  by (auto simp: Feed_save_def split: prod.splits sum.splits)

text \<open>A listener that throws on the first event of a save makes the save reject.\<close>

lemma Feed_save_rejected:
  assumes "db st = Some rows"
      and "find (\<lambda>r. pk_id r = pk_id i) rows = None"
      and "\<exists>cb \<in> set (listeners st).
             listener_throws env cb \<lparr>modify = None, change_id = pk_id i, event = i\<rparr>"
  shows "fst (Feed_save env st (i # items)) = Inl (Error ''listener'')
         \<and> db (snd (Feed_save env st (i # items))) = Some rows"
proof -
  let ?c = "\<lparr>modify = None, change_id = pk_id i, event = i\<rparr>"
  have "fst (call_listeners (listener_throws env) (listeners st) ?c) = Inl (Error ''listener'')"
    using call_listeners_some [of "listeners st" "listener_throws env" ?c] assms(3) by blast
  then have "fst (notifyChange env st ?c) = Inl (Error ''listener'')"
    by (cases "call_listeners (listener_throws env) (listeners st) ?c")
       (simp add: notifyChange_def log_msg_def Let_def)
  moreover have "db (snd (notifyChange env st ?c)) = db st"
    using notifyChange_frame [of env st ?c] by simp
  ultimately show ?thesis using assms(1,2)
    by (auto simp: Feed_save_def put_row_def hook_creating_def split: prod.splits sum.splits)
qed

lemma find_upsert_same:
  "pk_id i = Some k \<Longrightarrow> find (\<lambda>r. pk_id r = Some k) (upsert i rows) = Some i"
  by (induction rows) auto

section \<open>Facts about the push\<close>

lemma encrypt_try_db: "db (snd (encrypt_try env st i)) = db st"
  by (auto simp: encrypt_try_def updateOne_def remote_call_def Let_def
           split: option.splits list.splits bool.splits prod.splits sum.splits if_splits)

text \<open>The promise of \<open>_encrypt\<close> is never rejected: its \<open>catch\<close> block swallows the error.\<close>

lemma encrypt_fulfils: "\<exists>r. fst (encrypt env st i) = Inr r"
  by (simp add: encrypt_def split: prod.splits sum.splits)

lemma encrypt_db: "db (snd (encrypt env st i)) = db st"
  using encrypt_try_db [of env st i]
  by (auto simp: encrypt_def split: prod.splits sum.splits)

text \<open>So the handler that \<open>write\<close> attaches with \<open>.catch\<close> never runs.\<close>

lemma run_push_db: "db (run_task env st (Push i)) = db st"
  using encrypt_fulfils [of env st i] encrypt_db [of env st i]
  by (auto split: prod.splits sum.splits)

text \<open>And a retried item is given the flag whatever became of the push.\<close>

lemma run_retry_always_updates:
  "run_task env st (Retry i) = FeedTable_update env (snd (encrypt env st i)) (item_id i) True"
  using encrypt_fulfils [of env st i]
  by (auto split: prod.splits sum.splits)

section \<open>Facts about the reconciliation\<close>

lemma sorted_last_ge:
  "sorted (map f ys) \<Longrightarrow> y \<in> set ys \<Longrightarrow> f y \<le> f (last ys)"
proof (induction ys)
  case Nil
  then show ?case by simp
next
  case (Cons z zs)
  show ?case
  proof (cases "zs = []")
    case True
    with Cons.prems show ?thesis by simp
  next
    case False
    from Cons.prems(1) have s: "sorted (map f zs)" and le: "\<forall>x\<in>set zs. f z \<le> f x" by simp_all
    from False have l: "last zs \<in> set zs" by simp
    show ?thesis
    proof (cases "y = z")
      case True
      with le l False show ?thesis by simp
    next
      case False
      with Cons.prems(2) have "y \<in> set zs" by simp
      with Cons.IH [OF s] \<open>zs \<noteq> []\<close> show ?thesis by simp
    qed
  qed
qed

lemma lastSync_last:
  "rows \<noteq> [] \<Longrightarrow> lastSync rows = date (last (orderBy_date rows))"
proof -
  assume ne: "rows \<noteq> []"
  let ?s = "orderBy_date rows"
  have sne: "?s \<noteq> []" using ne
    by (metis orderBy_date_def length_sort list.size(3) length_0_conv)
  then obtain r rest where rv: "rev ?s = r # rest" by (cases "rev ?s") auto
  have "r = hd (rev ?s)" by (simp add: rv)
  then have rl: "r = last ?s" using sne by (simp add: hd_rev)
  have "lastSync rows = date r"
    by (simp add: lastSync_def rv)
  then show ?thesis using rl by simp
qed

lemma lastSync_Max: "rows \<noteq> [] \<Longrightarrow> lastSync rows = Max (date ` set rows)"
proof -
  assume ne: "rows \<noteq> []"
  let ?s = "orderBy_date rows"
  have set_s: "set ?s = set rows" by (simp add: orderBy_date_def)
  have sne: "?s \<noteq> []" using ne set_s by (metis set_empty)
  have srt: "sorted (map (\<lambda>r. (date r, pk_id r)) ?s)" by (simp add: orderBy_date_def)
  have mem: "last ?s \<in> set rows" using sne set_s last_in_set by blast
  have ge: "date y \<le> date (last ?s)" if "y \<in> set rows" for y
  proof -
    from that set_s have "y \<in> set ?s" by simp
    from sorted_last_ge [OF srt this]
    have "(date y, pk_id y) \<le> (date (last ?s), pk_id (last ?s))" .
    then show ?thesis by (auto simp: less_eq_prod_def)
  qed
  have "Max (date ` set rows) = date (last ?s)"
  proof (rule Max_eqI)
    show "finite (date ` set rows)" by simp
    show "y \<le> date (last ?s)" if "y \<in> date ` set rows" for y using that ge by auto
    show "date (last ?s) \<in> date ` set rows" using mem by simp
  qed
  with lastSync_last [OF ne] show ?thesis by simp
qed

lemma lastSync_empty: "lastSync [] = 0"
  by (simp add: lastSync_def orderBy_date_def)

lemma lastSync_valid:
  assumes "\<forall>r \<in> set rows. valid_time (date r)"
  shows "valid_time (lastSync rows)"
proof (cases "rows = []")
  case True
  then show ?thesis by (simp add: lastSync_empty valid_time_def)
next
  case False
  have "set (orderBy_date rows) = set rows" by (simp add: orderBy_date_def)
  moreover from this False have "orderBy_date rows \<noteq> []" by (metis set_empty)
  ultimately have "last (orderBy_date rows) \<in> set rows" using last_in_set by blast
  with assms lastSync_last [OF False] show ?thesis by simp
qed

lemma later_than_Date: "later_than x (Date w) = (\<exists>t. x = Some (Date t) \<and> w < t)"
  by (cases "(x, Date w)" rule: later_than.cases) auto

lemma find_matches_Date:
  "find_matches uid (Date w) docs
     = filter (\<lambda>d. user_id d = uid \<and> (\<exists>t. doc_date d = Some (Date t) \<and> w < t)) docs"
  by (simp add: find_matches_def later_than_Date)

lemma fetch_new_requests:
  assumes "db st = Some rows" and "user st = Some uid"
  shows "requests (snd (fetch_new st)) = requests st @ [Find uid (new_Date (lastSync rows))]
         \<and> db (snd (fetch_new st)) = db st \<and> listeners (snd (fetch_new st)) = listeners st
         \<and> spawned (snd (fetch_new st)) = spawned st"
  using assms
  by (auto simp: fetch_new_def find_newer_def remote_call_def Let_def
           split: list.splits bool.splits)

lemma fetch_new_ok:
  assumes "db st = Some rows" and "user st = Some uid" and "next_call_ok st"
      and "valid_time (lastSync rows)"
  shows "fst (fetch_new st) =
           Inr (lastSync rows,
                filter (\<lambda>d. user_id d = uid \<and> (\<exists>t. doc_date d = Some (Date t) \<and> lastSync rows < t))
                  (encryptedFeed st))"
proof -
  have "fst (fetch_new st) =
          Inr (lastSync rows, find_matches uid (Date (lastSync rows)) (encryptedFeed st))"
    using assms
    by (auto simp: fetch_new_def find_newer_def next_call_ok_def remote_call_def new_Date_def
          Let_def split: list.splits)
  then show ?thesis by (simp only: find_matches_Date)
qed

lemma decrypt_fst: "fst (decrypt env st d) = decrypted_value env d"
  by (simp add: decrypt_def decrypted_value_def split: sum.splits)

lemma decrypt_frame:
  "db (snd (decrypt env st d)) = db st \<and> listeners (snd (decrypt env st d)) = listeners st
   \<and> requests (snd (decrypt env st d)) = requests st \<and> spawned (snd (decrypt env st d)) = spawned st"
  by (simp add: decrypt_def log_msg_def split: sum.splits)

lemma decrypt_all_fst: "fst (decrypt_all env st ds) = map (decrypted_value env) ds"
proof (induction ds arbitrary: st)
  case Nil
  then show ?case by simp
next
  case (Cons d ds)
  have "fst (decrypt env st d) = decrypted_value env d" by (rule decrypt_fst)
  with Cons show ?case
    by (auto split: prod.splits) (metis fst_conv)
qed

lemma decrypt_all_frame:
  "db (snd (decrypt_all env st ds)) = db st \<and> listeners (snd (decrypt_all env st ds)) = listeners st
   \<and> requests (snd (decrypt_all env st ds)) = requests st
   \<and> spawned (snd (decrypt_all env st ds)) = spawned st"
proof (induction ds arbitrary: st)
  case Nil
  then show ?case by simp
next
  case (Cons d ds)
  obtain r st1 where d: "decrypt env st d = (r, st1)" by (cases "decrypt env st d")
  obtain rs st2 where a: "decrypt_all env st1 ds = (rs, st2)" by (cases "decrypt_all env st1 ds")
  from decrypt_frame [of env st d] d Cons.IH [of st1] a show ?case by simp
qed

lemma filter_defined_map: "filter_defined (map f xs) = List.map_filter f xs"
  by (induction xs) (auto split: option.splits)

lemma set_map_filter: "set (List.map_filter f xs) = {v. \<exists>x\<in>set xs. f x = Some v}"
  by (induction xs) (auto split: option.splits)

lemma merge_filtered_requests:
  "requests (snd (merge_filtered env st ds)) = requests st"
proof (cases "ds = []")
  case True
  then show ?thesis by (simp add: merge_filtered_def)
next
  case False
  obtain rs st1 where da: "decrypt_all env st ds = (rs, st1)" by (cases "decrypt_all env st ds")
  have r1: "requests st1 = requests st" using decrypt_all_frame [of env st ds] da by simp
  let ?st2 = "log_msg Debug ''_syncFromRemote'' st1"
  have "requests (snd (Feed_save env ?st2 (filter_defined rs))) = requests ?st2"
    using Feed_save_frame [of env ?st2 "filter_defined rs"] by simp
  then show ?thesis using False da r1
    by (simp add: merge_filtered_def Let_def log_msg_def)
qed

lemma merge_filtered_quiet:
  assumes "db st = Some rows"
      and "\<forall>cb \<in> set (listeners st). \<forall>c. \<not> listener_throws env cb c"
  shows "fst (merge_filtered env st ds) = Inr ()
         \<and> db (snd (merge_filtered env st ds))
             = Some (fold upsert (List.map_filter (decrypted_value env) ds) rows)"
proof (cases "ds = []")
  case True
  then show ?thesis using assms by (simp add: merge_filtered_def)
next
  case False
  obtain rs st1 where da: "decrypt_all env st ds = (rs, st1)" by (cases "decrypt_all env st ds")
  have rs: "rs = map (decrypted_value env) ds" using decrypt_all_fst [of env st ds] da by simp
  let ?st2 = "log_msg Debug ''_syncFromRemote'' st1"
  have d2: "db ?st2 = Some rows" using decrypt_all_frame [of env st ds] da assms(1) by simp
  have l2: "\<forall>cb \<in> set (listeners ?st2). \<forall>c. \<not> listener_throws env cb c"
    using decrypt_all_frame [of env st ds] da assms(2) by (simp add: log_msg_def)
  from Feed_save_quiet [OF d2 l2, of "filter_defined rs"] False da rs
  show ?thesis by (simp add: merge_filtered_def Let_def filter_defined_map)
qed

text \<open>
  A reconciliation pass makes one remote call, the query for the documents of the
  user that are newer than the watermark, whatever happens afterwards.
\<close>

lemma syncFromRemote_requests:
  assumes "db st = Some rows" and "user st = Some uid"
  shows "requests (snd (syncFromRemote env st))
           = requests st @ [Find uid (new_Date (lastSync rows))]"
proof -
  obtain r st1 where fn: "fetch_new st = (r, st1)" by (cases "fetch_new st")
  from fetch_new_requests [OF assms] fn
  have r1: "requests st1 = requests st @ [Find uid (new_Date (lastSync rows))]" by simp
  show ?thesis
  proof (cases r)
    case (Inl e)
    with fn r1 show ?thesis by (simp add: syncFromRemote_def)
  next
    case (Inr p)
    obtain w newItems where p: "p = (w, newItems)" by (cases p)
    let ?st2 = "log_msg Debug ''_syncFromRemote'' st1"
    obtain r3 st3 where mf: "merge_filtered env ?st2 (filter eligible newItems) = (r3, st3)"
      by (cases "merge_filtered env ?st2 (filter eligible newItems)")
    from merge_filtered_requests [of env ?st2 "filter eligible newItems"] mf r1
    have r3: "requests st3 = requests st @ [Find uid (new_Date (lastSync rows))]"
      by (simp add: log_msg_def)
    show ?thesis using fn Inr p mf r3
      by (auto simp: syncFromRemote_def Let_def log_msg_def split: sum.splits option.splits)
  qed
qed

section \<open>Facts about the feed page\<close>

lemma filter_dropWhile_not: "filter P (dropWhile (\<lambda>x. \<not> P x) xs) = filter P xs"
  by (induction xs) auto

lemma collect_no_skip: "collect P 0 lim rows = take lim (filter P rows)"
proof (induction rows arbitrary: lim)
  case Nil
  then show ?case by simp
next
  case (Cons r rs)
  show ?case
  proof (cases "P r")
    case False
    with Cons show ?thesis by simp
  next
    case True
    show ?thesis
    proof (cases lim)
      case 0
      with True show ?thesis by simp
    next
      case (Suc n)
      with True Cons [of n] show ?thesis by simp
    qed
  qed
qed

text \<open>The page in closed form.\<close>

lemma collect_closed_form:
  "collect P skip lim rows
     = take lim (filter P (drop skip (dropWhile (\<lambda>x. \<not> P x) rows)))"
proof (cases "skip = 0")
  case True
  then show ?thesis by (simp add: collect_no_skip filter_dropWhile_not)
next
  case False
  then have pos: "0 < skip" by simp
  show ?thesis
  proof (induction rows)
    case Nil
    then show ?case by simp
  next
    case (Cons r rs)
    show ?case
    proof (cases "P r")
      case False
      with Cons show ?thesis by simp
    next
      case True
      have "drop skip (r # rs) = drop (skip - 1) rs" using pos by (cases skip) simp_all
      with True pos show ?thesis by (simp add: collect_no_skip)
    qed
  qed
qed

section \<open>Facts about the remote collection\<close>

lemma find_append_new:
  "find P xs = None \<Longrightarrow> P d \<Longrightarrow> find P (xs @ [d]) = Some d"
  by (induction xs) (auto split: if_splits)

lemma find_replace_doc:
  "find (\<lambda>x. doc_id x = doc_id d) xs = Some y \<Longrightarrow>
     find (\<lambda>x. doc_id x = doc_id d) (replace_doc d xs) = Some d"
  by (induction xs) (auto split: if_splits)

lemma remote_call_frame:
  "user (snd (remote_call st req)) = user st
   \<and> encryptedFeed (snd (remote_call st req)) = encryptedFeed st"
  by (simp add: remote_call_def split: list.splits)

lemma remote_call_ok: "fst (remote_call st req) = next_call_ok st"
  by (simp add: remote_call_def next_call_ok_def split: list.splits)

lemma updateOne_found:
  assumes "updateOne st k uid doc = (Inr r, st1)" and "doc_id doc = k"
  shows "find (\<lambda>d. doc_id d = k) (encryptedFeed st1) = Some doc \<and> user st1 = user st"
proof -
  obtain b st0 where rc: "remote_call st (UpdateOne k uid doc) = (b, st0)"
    by (cases "remote_call st (UpdateOne k uid doc)")
  have u0: "user st0 = user st" and e0: "encryptedFeed st0 = encryptedFeed st"
    using rc remote_call_frame [of st "UpdateOne k uid doc"] by simp_all
  show ?thesis
  proof (cases "find (\<lambda>d. doc_id d = k) (encryptedFeed st0)")
    case None
    then show ?thesis
      using assms rc u0 find_append_new [of "\<lambda>d. doc_id d = k" "encryptedFeed st0" doc]
      by (auto simp: updateOne_def split: bool.splits if_splits)
  next
    case (Some y)
    then show ?thesis
      using assms rc u0 find_replace_doc [of doc "encryptedFeed st0" y]
      by (auto simp: updateOne_def split: bool.splits if_splits)
  qed
qed

lemma syncFromRemote_ok:
  assumes "db st = Some rows" and "user st = Some uid" and "next_call_ok st"
      and "valid_time (lastSync rows)"
      and "\<forall>cb \<in> set (listeners st). \<forall>c. \<not> listener_throws env cb c"
  shows "fst (syncFromRemote env st) = Inr ()
         \<and> db (snd (syncFromRemote env st))
             = Some (fold upsert
                 (List.map_filter (decrypted_value env)
                    (filter eligible
                       (filter (\<lambda>d. user_id d = uid
                                    \<and> (\<exists>t. doc_date d = Some (Date t) \<and> lastSync rows < t))
                          (encryptedFeed st))))
                 rows)"
proof -
  let ?new = "filter (\<lambda>d. user_id d = uid \<and> (\<exists>t. doc_date d = Some (Date t) \<and> lastSync rows < t))
                (encryptedFeed st)"
  obtain r st1 where fn: "fetch_new st = (r, st1)" by (cases "fetch_new st")
  from fetch_new_ok [OF assms(1-4)] fn have r: "r = Inr (lastSync rows, ?new)" by simp
  from fetch_new_requests [OF assms(1,2)] fn
  have d1: "db st1 = Some rows" and l1: "listeners st1 = listeners st"
    using assms(1) by simp_all
  let ?f = "filter eligible ?new"
  let ?st2 = "log_msg Debug ''_syncFromRemote'' st1"
  have d2: "db ?st2 = Some rows" using d1 by simp
  have l2: "\<forall>cb \<in> set (listeners ?st2). \<forall>c. \<not> listener_throws env cb c"
    using l1 assms(5) by (simp add: log_msg_def)
  obtain r3 st3 where mf: "merge_filtered env ?st2 ?f = (r3, st3)"
    by (cases "merge_filtered env ?st2 ?f")
  from merge_filtered_quiet [OF d2 l2, of ?f] mf
  have r3: "r3 = Inr ()"
    and d3: "db st3 = Some (fold upsert (List.map_filter (decrypted_value env) ?f) rows)"
    by simp_all
  show ?thesis
    using fn r mf r3 d3
    by (simp add: syncFromRemote_def Let_def log_msg_def)
qed

text \<open>
  With a listener registered that throws, \<open>write\<close> is rejected with the listener's
  exception and nothing is stored.
\<close>

lemma write_rejected_by_listener:
  "fst (write_item example_env (on (example_state [] [] []) 1) (example_item ''a'' 5 None))
     = Inl (Error ''listener'')
   \<and> read (snd (snd (write_item example_env (on (example_state [] [] []) 1)
                      (example_item ''a'' 5 None)))) ''a'' = Inr None"
  by (simp add: run_defs on_def)

section \<open>The write path: C1, C5, C6, C10\<close>

text \<open>
  C1. The specification says that a failed background push is logged, sets the local
  item's \<open>sync\<close> flag to false and is never surfaced to the caller of \<open>write\<close>. Run
  on an item with id \<open>a\<close> while the remote upsert is rejected, the code fulfils the
  promise of \<open>write\<close>, logs the error inside \<open>_encrypt\<close> and creates no mirror, but
  the stored item is the one that was written: its \<open>sync\<close> flag is not set to false,
  because \<open>_encrypt\<close> swallows the error before the handler of \<open>write\<close> can see it.
\<close>

theorem push_failure_not_recorded:
  "fst (write_item example_env (example_state [] [] [False]) (example_item ''a'' 5 None)) = Inr ()
   \<and> encryptedFeed (settle example_env
        (snd (snd (write_item example_env (example_state [] [] [False])
                     (example_item ''a'' 5 None))))) = []
   \<and> logs (settle example_env
        (snd (snd (write_item example_env (example_state [] [] [False])
                     (example_item ''a'' 5 None)))))
       = [(Debug, ''notifyChange''), (Err, ''error _encrypt feedItem:'')]
   \<and> read (settle example_env
        (snd (snd (write_item example_env (example_state [] [] [False])
                     (example_item ''a'' 5 None))))) ''a''
       = Inr (Some (example_item ''a'' 5 None))
   \<and> sync (example_item ''a'' 5 None) = None"
  by (simp add: run_defs)

text \<open>
  C5. For a feed item with a non-empty id, an open local store and listeners that do
  not throw, \<open>write\<close> is fulfilled with the item saved: \<open>read\<close> of the item's id
  returns the item (with \<open>_id\<close> set) right after \<open>write\<close>, while the push is only
  spawned, and also after the push has run to its end, whether it succeeded or failed.
\<close>

theorem write_then_read:
  assumes "truthy (item_id item)" and "db st = Some rows"
      and "\<forall>cb \<in> set (listeners st). \<forall>c. \<not> listener_throws env cb c"
  shows "\<exists>st1. write_item env st item = (Inr (), item\<lparr>pk_id := item_id item\<rparr>, st1)
           \<and> read st1 (the (item_id item)) = Inr (Some (item\<lparr>pk_id := item_id item\<rparr>))
           \<and> spawned st1 = spawned st @ [Push (item\<lparr>pk_id := item_id item\<rparr>)]
           \<and> read (run_task env st1 (Push (item\<lparr>pk_id := item_id item\<rparr>))) (the (item_id item))
                 = Inr (Some (item\<lparr>pk_id := item_id item\<rparr>))"
proof -
  from assms(1) obtain k where k: "item_id item = Some k"
    by (auto simp: truthy_def split: option.splits)
  let ?i = "item\<lparr>pk_id := item_id item\<rparr>"
  obtain r st0 where fs: "Feed_save env st [?i] = (r, st0)" by (cases "Feed_save env st [?i]")
  from Feed_save_quiet [OF assms(2,3), of "[?i]"] fs
  have r: "r = Inr ()" and d0: "db st0 = Some (upsert ?i rows)" by simp_all
  from Feed_save_frame [of env st "[?i]"] fs have s0: "spawned st0 = spawned st" by simp
  let ?st1 = "st0\<lparr>spawned := spawned st0 @ [Push ?i]\<rparr>"
  have w: "write_item env st item = (Inr (), ?i, ?st1)"
    using assms(1) fs r by (simp add: write_item_def Let_def)
  have rd: "read ?st1 k = Inr (Some ?i)"
    using k d0 by (simp add: read_def Feed_findById_def find_upsert_same)
  have "db (run_task env ?st1 (Push ?i)) = db ?st1"
    by (rule run_push_db)
  then have rd2: "read (run_task env ?st1 (Push ?i)) k = read ?st1 k"
    by (simp add: read_def)
  show ?thesis using w rd rd2 k s0 by simp
qed

theorem write_then_read_witness:
  "truthy (item_id ((example_item ''a'' 5 None)\<lparr>pk_id := None\<rparr>))
   \<and> db (on (example_state [example_item ''b'' 1 None] [] [False]) 2)
       = Some [example_item ''b'' 1 None]
   \<and> listeners (on (example_state [example_item ''b'' 1 None] [] [False]) 2) = [2]
   \<and> fst (write_item example_env (on (example_state [example_item ''b'' 1 None] [] [False]) 2)
            ((example_item ''a'' 5 None)\<lparr>pk_id := None\<rparr>)) = Inr ()
   \<and> read (snd (snd (write_item example_env
                        (on (example_state [example_item ''b'' 1 None] [] [False]) 2)
                        ((example_item ''a'' 5 None)\<lparr>pk_id := None\<rparr>)))) ''a''
       = Inr (Some (example_item ''a'' 5 None))
   \<and> read (settle example_env (snd (snd (write_item example_env
                        (on (example_state [example_item ''b'' 1 None] [] [False]) 2)
                        ((example_item ''a'' 5 None)\<lparr>pk_id := None\<rparr>))))) ''a''
       = Inr (Some (example_item ''a'' 5 None))"
proof -
  let ?i = "(example_item ''a'' 5 None)\<lparr>pk_id := None\<rparr>"
  let ?st = "on (example_state [example_item ''b'' 1 None] [] [False]) 2"
  have t: "truthy (item_id ?i)" by (simp add: example_item_def truthy_def)
  have d: "db ?st = Some [example_item ''b'' 1 None]" by (simp add: example_state_def on_def)
  have l: "listeners ?st = [2]" by (simp add: example_state_def on_def)
  have q: "\<forall>cb \<in> set (listeners ?st). \<forall>c. \<not> listener_throws example_env cb c"
    unfolding l by (simp add: example_env_def)
  have sp: "spawned ?st = []" by (simp add: example_state_def on_def)
  have i: "?i\<lparr>pk_id := item_id ?i\<rparr> = example_item ''a'' 5 None"
    by (simp add: example_item_def)
  have k: "the (item_id ?i) = ''a''" by (simp add: example_item_def)
  from write_then_read [OF t d q]
  obtain st1 where w: "write_item example_env ?st ?i = (Inr (), example_item ''a'' 5 None, st1)"
    and r: "read st1 ''a'' = Inr (Some (example_item ''a'' 5 None))"
    and s: "spawned st1 = spawned ?st @ [Push (example_item ''a'' 5 None)]"
    unfolding i k by blast
  have "settle example_env st1
          = run_task example_env (st1\<lparr>spawned := []\<rparr>) (Push (example_item ''a'' 5 None))"
    using s sp by (simp add: settle_def)
  moreover have "db (run_task example_env (st1\<lparr>spawned := []\<rparr>) (Push (example_item ''a'' 5 None)))
                  = db st1"
    using run_push_db [of example_env "st1\<lparr>spawned := []\<rparr>" "example_item ''a'' 5 None"] by simp
  ultimately have "read (settle example_env st1) ''a'' = read st1 ''a''"
    by (simp add: read_def)
  with t d l w r show ?thesis by simp
qed

text \<open>
  C6. For a feed item whose id is missing or empty, \<open>write\<close> is rejected with the error
  \<open>feed item missing id\<close> and has done nothing but log a warning: the caller's object,
  the local store, the remote collection, the remote calls made and the spawned tasks
  are as before and no listener was called, so nothing was saved and no push was
  started.
\<close>

theorem write_missing_id:
  assumes "\<not> truthy (item_id item)"
  shows "\<exists>st1. write_item env st item = (Inl (Error ''feed item missing id''), item, st1)
           \<and> db st1 = db st \<and> encryptedFeed st1 = encryptedFeed st
           \<and> network st1 = network st \<and> spawned st1 = spawned st
           \<and> listeners st1 = listeners st \<and> user st1 = user st
           \<and> requests st1 = requests st \<and> delivered st1 = delivered st"
  using assms by (simp add: write_item_def log_msg_def)

theorem write_missing_id_witness:
  "\<not> truthy (item_id ((example_item ''a'' 5 None)\<lparr>item_id := Some []\<rparr>))
   \<and> \<not> truthy (item_id ((example_item ''a'' 5 None)\<lparr>item_id := None\<rparr>))
   \<and> fst (write_item example_env (example_state [] [] [])
            ((example_item ''a'' 5 None)\<lparr>item_id := Some []\<rparr>))
       = Inl (Error ''feed item missing id'')
   \<and> db (snd (snd (write_item example_env (example_state [] [] [])
            ((example_item ''a'' 5 None)\<lparr>item_id := Some []\<rparr>)))) = Some []
   \<and> spawned (snd (snd (write_item example_env (example_state [] [] [])
            ((example_item ''a'' 5 None)\<lparr>item_id := Some []\<rparr>)))) = []
   \<and> fst (write_item example_env (example_state [] [] [])
            ((example_item ''a'' 5 None)\<lparr>item_id := None\<rparr>))
       = Inl (Error ''feed item missing id'')"
proof -
  let ?e = "(example_item ''a'' 5 None)\<lparr>item_id := Some []\<rparr>"
  let ?n = "(example_item ''a'' 5 None)\<lparr>item_id := None\<rparr>"
  have te: "\<not> truthy (item_id ?e)" and tn: "\<not> truthy (item_id ?n)"
    by (simp_all add: example_item_def truthy_def)
  have d: "db (example_state [] [] []) = Some []" and s: "spawned (example_state [] [] []) = []"
    by (simp_all add: example_state_def)
  from write_missing_id [OF te, of example_env "example_state [] [] []"]
       write_missing_id [OF tn, of example_env "example_state [] [] []"] te tn d s
  show ?thesis by auto
qed

text \<open>
  C10. For a feed item with a non-empty id, \<open>write\<close> assigns the caller's object its
  \<open>_id\<close>, equal to its \<open>id\<close>, before it saves: the object the caller holds after the
  call is the argument with that one field set, whatever the state of the instance.
\<close>

theorem write_sets_pk_id:
  assumes "truthy (item_id item)"
  shows "fst (snd (write_item env st item)) = item\<lparr>pk_id := item_id item\<rparr>
          \<and> pk_id (fst (snd (write_item env st item))) = item_id item"
  using assms by (simp add: write_item_def Let_def split: sum.splits prod.splits)

theorem write_sets_pk_id_witness:
  "truthy (item_id ((example_item ''a'' 5 None)\<lparr>pk_id := None\<rparr>))
   \<and> pk_id ((example_item ''a'' 5 None)\<lparr>pk_id := None\<rparr>) = None
   \<and> pk_id (fst (snd (write_item example_env (example_state [] [] [])
               ((example_item ''a'' 5 None)\<lparr>pk_id := None\<rparr>)))) = Some ''a''"
proof -
  let ?i = "(example_item ''a'' 5 None)\<lparr>pk_id := None\<rparr>"
  have t: "truthy (item_id ?i)" by (simp add: example_item_def truthy_def)
  from write_sets_pk_id [OF t, of example_env "example_state [] [] []"] t
  show ?thesis by (simp add: example_item_def)
qed

section \<open>Reconciliation: C2, C3, C4\<close>

text \<open>
  C2. The specification says that the reconciliation pass sets the \<open>sync\<close> flag of a
  previously failed item to true when and only when the new push succeeds, and leaves
  it false otherwise. Run on a local store holding one item with \<open>sync = false\<close>,
  with the remote query answered and the remote upsert rejected, the code spawns the
  retry, the push fails (no mirror is created), and the item is nevertheless stored
  with \<open>sync = true\<close>: \<open>_encrypt\<close> swallows the error, so the \<open>await\<close> in the retry
  never throws and the update of the flag always runs.
\<close>

theorem retry_failure_marked_synced:
  "fst (syncFromRemote example_env
          (example_state [(example_item ''b'' 3 None)\<lparr>sync := Some False\<rparr>] [] [True, False]))
     = Inr ()
   \<and> spawned (snd (syncFromRemote example_env
          (example_state [(example_item ''b'' 3 None)\<lparr>sync := Some False\<rparr>] [] [True, False])))
     = [Retry ((example_item ''b'' 3 None)\<lparr>sync := Some False\<rparr>)]
   \<and> encryptedFeed (settle example_env (snd (syncFromRemote example_env
          (example_state [(example_item ''b'' 3 None)\<lparr>sync := Some False\<rparr>] [] [True, False]))))
     = []
   \<and> db (settle example_env (snd (syncFromRemote example_env
          (example_state [(example_item ''b'' 3 None)\<lparr>sync := Some False\<rparr>] [] [True, False]))))
     = Some [(example_item ''b'' 3 None)\<lparr>sync := Some True\<rparr>]"
  by (simp add: run_defs sync_defs)

text \<open>
  C3. With the local store open and holding valid dates, the user logged in, the
  remote query answered and listeners that do not throw, \<open>_syncFromRemote\<close> is
  fulfilled and has saved into the local store, in one batch and in the order of the
  query result, the decrypted payloads of exactly those candidates whose key does not
  contain \<open>settings\<close> and whose \<open>txHash\<close> is present (neither undefined nor empty).
  Each candidate is decrypted on its own: one that fails to decrypt or to parse
  contributes nothing, and the others are saved all the same.
\<close>

theorem syncFromRemote_merges:
  assumes "db st = Some rows" and "user st = Some uid" and "next_call_ok st"
      and "\<forall>r \<in> set rows. valid_time (date r)"
      and "\<forall>cb \<in> set (listeners st). \<forall>c. \<not> listener_throws env cb c"
  shows "\<exists>st1 merged.
           syncFromRemote env st = (Inr (), st1)
           \<and> merged = List.map_filter (decrypted_value env)
                 (filter (\<lambda>d. \<not> includes_str (doc_id d) ''settings'' \<and> truthy (txHash d))
                    (filter (\<lambda>d. user_id d = uid
                                 \<and> (\<exists>t. doc_date d = Some (Date t) \<and> lastSync rows < t))
                       (encryptedFeed st)))
           \<and> db st1 = Some (fold upsert merged rows)
           \<and> set merged =
               {v. \<exists>d \<in> set (encryptedFeed st).
                     user_id d = uid \<and> (\<exists>t. doc_date d = Some (Date t) \<and> lastSync rows < t)
                     \<and> \<not> includes_str (doc_id d) ''settings'' \<and> truthy (txHash d)
                     \<and> decrypt_try env d = Inr v}"
proof -
  let ?new = "filter (\<lambda>d. user_id d = uid \<and> (\<exists>t. doc_date d = Some (Date t) \<and> lastSync rows < t))
                (encryptedFeed st)"
  let ?f = "filter eligible ?new"
  obtain r st1 where s: "syncFromRemote env st = (r, st1)" by (cases "syncFromRemote env st")
  from syncFromRemote_ok [OF assms(1-3) lastSync_valid [OF assms(4)] assms(5)] s
  have r: "r = Inr ()"
    and d1: "db st1 = Some (fold upsert (List.map_filter (decrypted_value env) ?f) rows)"
    by simp_all
  have el: "(\<lambda>d. \<not> includes_str (doc_id d) ''settings'' \<and> truthy (txHash d)) = eligible"
    by (auto simp: eligible_def)
  have pl: "\<And>d v. (decrypted_value env d = Some v) = (decrypt_try env d = Inr v)"
    by (auto simp: decrypted_value_def split: sum.splits)
  have st: "set (List.map_filter (decrypted_value env) ?f) =
               {v. \<exists>d \<in> set (encryptedFeed st).
                     user_id d = uid \<and> (\<exists>t. doc_date d = Some (Date t) \<and> lastSync rows < t)
                     \<and> \<not> includes_str (doc_id d) ''settings'' \<and> truthy (txHash d)
                     \<and> decrypt_try env d = Inr v}"
    unfolding set_map_filter pl by (auto simp: eligible_def)
  from s r d1 st show ?thesis unfolding el by auto
qed

theorem syncFromRemote_merges_witness:
  "db (on (example_state [example_item ''b'' 1 None] example_docs []) 2)
     = Some [example_item ''b'' 1 None]
   \<and> user (on (example_state [example_item ''b'' 1 None] example_docs []) 2) = Some ''u1''
   \<and> next_call_ok (on (example_state [example_item ''b'' 1 None] example_docs []) 2)
   \<and> valid_time (date (example_item ''b'' 1 None))
   \<and> listeners (on (example_state [example_item ''b'' 1 None] example_docs []) 2) = [2]
   \<and> fst (syncFromRemote example_env
            (on (example_state [example_item ''b'' 1 None] example_docs []) 2)) = Inr ()
   \<and> db (snd (syncFromRemote example_env
            (on (example_state [example_item ''b'' 1 None] example_docs []) 2)))
       = Some [example_item ''b'' 1 None, example_item ''t1'' 7 None]"
proof -
  let ?st = "on (example_state [example_item ''b'' 1 None] example_docs []) 2"
  have d: "db ?st = Some [example_item ''b'' 1 None]" and u: "user ?st = Some ''u1''"
    and n: "next_call_ok ?st" and l: "listeners ?st = [2]"
    by (simp_all add: example_state_def next_call_ok_def on_def)
  have v: "\<forall>r \<in> set [example_item ''b'' 1 None]. valid_time (date r)"
    by (simp add: example_item_def valid_time_def)
  have q: "\<forall>cb \<in> set (listeners ?st). \<forall>c. \<not> listener_throws example_env cb c"
    unfolding l by (simp add: example_env_def)
  have e: "encryptedFeed ?st = example_docs" by (simp add: example_state_def on_def)
  have ls: "lastSync [example_item ''b'' 1 None] = 1"
    by (simp add: lastSync_def orderBy_date_def example_item_def)
  have m: "List.map_filter (decrypted_value example_env)
             (filter (\<lambda>d. \<not> includes_str (doc_id d) ''settings'' \<and> truthy (txHash d))
                (filter (\<lambda>d. user_id d = ''u1'' \<and> (\<exists>t. doc_date d = Some (Date t) \<and> 1 < t))
                   example_docs))
           = [example_item ''t1'' 7 None]"
    by (simp add: example_docs_def decrypted_value_def decrypt_try_def example_env_def
          example_item_def truthy_def)
  from syncFromRemote_merges [OF d u n v q]
  obtain st1 where s: "syncFromRemote example_env ?st = (Inr (), st1)"
    and d1: "db st1 = Some (fold upsert [example_item ''t1'' 7 None] [example_item ''b'' 1 None])"
    unfolding e ls m by blast
  have "fold upsert [example_item ''t1'' 7 None] [example_item ''b'' 1 None]
          = [example_item ''b'' 1 None, example_item ''t1'' 7 None]"
    by (simp add: example_item_def)
  with d u n l v s d1 show ?thesis by simp
qed

text \<open>
  C4. With the local store open and holding valid dates and the user logged in, the
  watermark of a reconciliation pass is the greatest \<open>date\<close> among the local feed
  items, and 0 when there is none; the pass sends the remote collection one request,
  the query for the documents of the current user whose date is greater than the
  watermark; that query selects the documents of the user whose date is strictly
  greater than the watermark and no others; and when the query is answered and no
  listener throws, what the pass saves is drawn from those documents only.
\<close>

theorem syncFromRemote_watermark_query:
  assumes "db st = Some rows" and "user st = Some uid"
      and "\<forall>r \<in> set rows. valid_time (date r)"
  shows "lastSync rows = (if rows = [] then 0 else Max (date ` set rows))
         \<and> requests (snd (syncFromRemote env st))
             = requests st @ [Find uid (Date (lastSync rows))]
         \<and> find_matches uid (Date (lastSync rows)) (encryptedFeed st)
             = filter (\<lambda>d. user_id d = uid
                          \<and> (\<exists>t. doc_date d = Some (Date t) \<and> lastSync rows < t))
                 (encryptedFeed st)
         \<and> (next_call_ok st \<and> (\<forall>cb \<in> set (listeners st). \<forall>c. \<not> listener_throws env cb c) \<longrightarrow>
              fst (syncFromRemote env st) = Inr ()
              \<and> db (snd (syncFromRemote env st))
                  = Some (fold upsert
                      (List.map_filter (decrypted_value env)
                         (filter eligible (find_matches uid (Date (lastSync rows)) (encryptedFeed st))))
                      rows))"
proof (intro conjI impI)
  show "lastSync rows = (if rows = [] then 0 else Max (date ` set rows))"
    using lastSync_Max [of rows] lastSync_empty by (cases "rows = []") simp_all
next
  have "new_Date (lastSync rows) = Date (lastSync rows)"
    using lastSync_valid [OF assms(3)] by (simp add: new_Date_def)
  with syncFromRemote_requests [OF assms(1,2), of env]
  show "requests (snd (syncFromRemote env st)) = requests st @ [Find uid (Date (lastSync rows))]"
    by simp
next
  show "find_matches uid (Date (lastSync rows)) (encryptedFeed st)
             = filter (\<lambda>d. user_id d = uid
                          \<and> (\<exists>t. doc_date d = Some (Date t) \<and> lastSync rows < t))
                 (encryptedFeed st)"
    by (rule find_matches_Date)
next
  assume a: "next_call_ok st \<and> (\<forall>cb \<in> set (listeners st). \<forall>c. \<not> listener_throws env cb c)"
  from a have n: "next_call_ok st"
    and q: "\<forall>cb \<in> set (listeners st). \<forall>c. \<not> listener_throws env cb c" by simp_all
  from syncFromRemote_ok [OF assms(1,2) n lastSync_valid [OF assms(3)] q]
  show "fst (syncFromRemote env st) = Inr ()" by simp
next
  assume a: "next_call_ok st \<and> (\<forall>cb \<in> set (listeners st). \<forall>c. \<not> listener_throws env cb c)"
  from a have n: "next_call_ok st"
    and q: "\<forall>cb \<in> set (listeners st). \<forall>c. \<not> listener_throws env cb c" by simp_all
  from syncFromRemote_ok [OF assms(1,2) n lastSync_valid [OF assms(3)] q]
  show "db (snd (syncFromRemote env st))
                  = Some (fold upsert
                      (List.map_filter (decrypted_value env)
                         (filter eligible (find_matches uid (Date (lastSync rows)) (encryptedFeed st))))
                      rows)"
    by (simp only: find_matches_Date)
qed

theorem syncFromRemote_watermark_query_witness:
  "db (example_state [example_item ''b'' 4 None, example_item ''c'' 2 None] example_docs [])
     = Some [example_item ''b'' 4 None, example_item ''c'' 2 None]
   \<and> user (example_state [example_item ''b'' 4 None, example_item ''c'' 2 None] example_docs [])
       = Some ''u1''
   \<and> valid_time (date (example_item ''b'' 4 None)) \<and> valid_time (date (example_item ''c'' 2 None))
   \<and> next_call_ok (example_state [example_item ''b'' 4 None, example_item ''c'' 2 None] example_docs [])
   \<and> lastSync [example_item ''b'' 4 None, example_item ''c'' 2 None] = 4
   \<and> requests (snd (syncFromRemote example_env
        (example_state [example_item ''b'' 4 None, example_item ''c'' 2 None] example_docs [])))
       = [Find ''u1'' (Date 4)]
   \<and> find_matches ''u1'' (Date 4) example_docs = drop 2 example_docs
   \<and> fst (syncFromRemote example_env
        (example_state [example_item ''b'' 4 None, example_item ''c'' 2 None] example_docs []))
       = Inr ()
   \<and> db (snd (syncFromRemote example_env
        (example_state [example_item ''b'' 4 None, example_item ''c'' 2 None] example_docs [])))
       = Some [example_item ''b'' 4 None, example_item ''c'' 2 None]"
proof -
  let ?rows = "[example_item ''b'' 4 None, example_item ''c'' 2 None]"
  let ?st = "example_state ?rows example_docs []"
  have d: "db ?st = Some ?rows" and u: "user ?st = Some ''u1''" and n: "next_call_ok ?st"
    and l: "listeners ?st = []" and rq: "requests ?st = []"
    by (simp_all add: example_state_def next_call_ok_def)
  have v: "\<forall>r \<in> set ?rows. valid_time (date r)"
    by (simp add: example_item_def valid_time_def)
  have q: "\<forall>cb \<in> set (listeners ?st). \<forall>c. \<not> listener_throws example_env cb c"
    unfolding l by simp
  have e: "encryptedFeed ?st = example_docs" by (simp add: example_state_def)
  have mx: "Max (date ` set ?rows) = 4" by (simp add: example_item_def)
  have fm: "filter (\<lambda>d. user_id d = ''u1'' \<and> (\<exists>t. doc_date d = Some (Date t) \<and> 4 < t)) example_docs
              = drop 2 example_docs"
    by (simp add: example_docs_def)
  have mg: "List.map_filter (decrypted_value example_env) (filter eligible (drop 2 example_docs)) = []"
    by (simp add: example_docs_def eligible_def truthy_def)
  note th = syncFromRemote_watermark_query [OF d u v, of example_env, unfolded e]
  from th have ls0: "lastSync ?rows = (if ?rows = [] then 0 else Max (date ` set ?rows))"
    by (rule conjunct1)
  from th have r: "requests (snd (syncFromRemote example_env ?st))
              = requests ?st @ [Find ''u1'' (Date (lastSync ?rows))]"
    by (rule conjunct2 [THEN conjunct1])
  from th have f: "find_matches ''u1'' (Date (lastSync ?rows)) example_docs
              = filter (\<lambda>d. user_id d = ''u1''
                          \<and> (\<exists>t. doc_date d = Some (Date t) \<and> lastSync ?rows < t)) example_docs"
    by (rule conjunct2 [THEN conjunct2, THEN conjunct1])
  from th have p: "next_call_ok ?st \<and> (\<forall>cb \<in> set (listeners ?st). \<forall>c. \<not> listener_throws example_env cb c) \<longrightarrow>
              fst (syncFromRemote example_env ?st) = Inr ()
              \<and> db (snd (syncFromRemote example_env ?st))
                  = Some (fold upsert
                      (List.map_filter (decrypted_value example_env)
                         (filter eligible (find_matches ''u1'' (Date (lastSync ?rows)) example_docs)))
                      ?rows)"
    by (rule conjunct2 [THEN conjunct2, THEN conjunct2])
  from ls0 mx have ls: "lastSync ?rows = 4" by simp
  from f fm have f4: "find_matches ''u1'' (Date 4) example_docs = drop 2 example_docs"
    unfolding ls by simp
  from p n q have ok: "fst (syncFromRemote example_env ?st) = Inr ()"
    and db1: "db (snd (syncFromRemote example_env ?st))
                  = Some (fold upsert
                      (List.map_filter (decrypted_value example_env)
                         (filter eligible (find_matches ''u1'' (Date (lastSync ?rows)) example_docs)))
                      ?rows)"
    by blast+
  from db1 have db2: "db (snd (syncFromRemote example_env ?st)) = Some ?rows"
    unfolding ls f4 mg by simp
  have vb: "valid_time (date (example_item ''b'' 4 None))"
    and vc: "valid_time (date (example_item ''c'' 2 None))"
    using v by simp_all
  from r have r4: "requests (snd (syncFromRemote example_env ?st)) = [Find ''u1'' (Date 4)]"
    unfolding ls rq by simp
  from d u vb vc n ls r4 f4 ok db2 show ?thesis by simp
qed

section \<open>Feed page: C7\<close>

text \<open>
  For every \<open>numResults\<close> and \<open>offset\<close>, \<open>getFeedPage\<close> is fulfilled, with the
  empty sequence when the local store cannot be queried. Otherwise the excluded rows at
  the head of the date-descending sequence are passed over, then \<open>offset\<close> rows are
  skipped, excluded or not, then the excluded rows are dropped and at most
  \<open>numResults\<close> rows are taken.
\<close>

lemma getFeedPage_closed_form:
  "fst (getFeedPage st numResults offset)
     = Inr (case db st of
              None \<Rightarrow> []
            | Some rows \<Rightarrow>
                take (nat numResults)
                  (filter shown
                     (drop (nat offset)
                        (dropWhile (\<lambda>i. \<not> shown i) (rev (orderBy_date rows))))))"
  by (simp add: getFeedPage_def collect_closed_form split: option.splits)

lemma getFeedPage_shown:
  "fst (getFeedPage st numResults offset) = Inr res \<Longrightarrow> i \<in> set res \<Longrightarrow> shown i"
  by (auto simp: getFeedPage_closed_form split: option.splits dest: in_set_takeD)

text \<open>
  C7. The specification says that the page is computed by applying the exclusion
  first, then skipping \<open>offset\<close> items, then taking at most \<open>numResults\<close> items.
  On a store with the items a, b, c, d of dates 4, 3, 2, 1, where b is deleted, the
  first page \<open>getFeedPage(2, 0)\<close> is a, c and the second page \<open>getFeedPage(2, 2)\<close>
  is c, d: the offset has counted the deleted b, so c comes back a second time, where
  the page of the specification is d alone.
\<close>

theorem getFeedPage_offset_counts_excluded:
  "fst (getFeedPage
          (example_state [example_item ''a'' 4 None, example_item ''b'' 3 (Some ''deleted''),
                          example_item ''c'' 2 None, example_item ''d'' 1 None] [] [])
          2 0)
     = Inr [example_item ''a'' 4 None, example_item ''c'' 2 None]
   \<and> fst (getFeedPage
          (example_state [example_item ''a'' 4 None, example_item ''b'' 3 (Some ''deleted''),
                          example_item ''c'' 2 None, example_item ''d'' 1 None] [] [])
          2 2)
     = Inr [example_item ''c'' 2 None, example_item ''d'' 1 None]
   \<and> page_exclusion_first
          [example_item ''a'' 4 None, example_item ''b'' 3 (Some ''deleted''),
           example_item ''c'' 2 None, example_item ''d'' 1 None] 2 2
     = [example_item ''d'' 1 None]"
  by (simp add: getFeedPage_def page_exclusion_first_def orderBy_date_def shown_def
        excluded_tag_def example_state_def example_item_def)

section \<open>Listeners: C8\<close>

text \<open>
  C8 as the specification states it: a listener that throws does not keep the others
  from being called. With the callbacks 1 and 2 registered in this order and never
  removed, and callback 1 throwing, \<open>_notifyChange\<close> calls callback 1 only and ends
  with its exception: callback 2 is not called.
\<close>

theorem throwing_listener_stops_delivery:
  "fst (notifyChange example_env (on (on (example_state [] [] []) 1) 2)
          \<lparr>modify = None, change_id = Some ''a'', event = example_item ''a'' 5 None\<rparr>)
     = Inl (Error ''listener'')
   \<and> delivered (snd (notifyChange example_env (on (on (example_state [] [] []) 1) 2)
          \<lparr>modify = None, change_id = Some ''a'', event = example_item ''a'' 5 None\<rparr>))
     = [(1, \<lparr>modify = None, change_id = Some ''a'', event = example_item ''a'' 5 None\<rparr>)]
   \<and> listeners (on (on (example_state [] [] []) 1) 2) = [1, 2]"
  by (simp add: notifyChange_def on_def example_state_def log_msg_def example_env_def)

text \<open>
  C8, amended. \<open>on\<close> appends a listener and \<open>off\<close> removes every registration of
  it. For every mutation event \<open>_notifyChange\<close> calls the registered listeners
  synchronously, in registration order and each with the mutation data, up to and
  including the first one that throws; the listeners registered after it are not
  called and the exception leaves \<open>_notifyChange\<close>. When no listener throws, all of
  them are called and \<open>_notifyChange\<close> returns. The event of a row that \<open>save\<close>
  creates reaches the listeners through \<open>_notifyChange\<close> before the row is stored,
  and the exception of a listener rejects the \<open>save\<close>.
\<close>

theorem notifyChange_delivery:
  "\<exists>r st1. notifyChange env st data = (r, st1)
     \<and> delivered st1 = delivered st
          @ map (\<lambda>cb. (cb, data))
              (takeWhile (\<lambda>cb. \<not> listener_throws env cb data) (listeners st)
               @ take 1 (dropWhile (\<lambda>cb. \<not> listener_throws env cb data) (listeners st)))
     \<and> ((\<forall>cb \<in> set (listeners st). \<not> listener_throws env cb data) \<longrightarrow>
           r = Inr () \<and> delivered st1 = delivered st @ map (\<lambda>cb. (cb, data)) (listeners st))
     \<and> ((\<exists>cb \<in> set (listeners st). listener_throws env cb data) \<longrightarrow>
           r = Inl (Error ''listener''))
     \<and> listeners (on st cb) = listeners st @ [cb]
     \<and> listeners (off st cb) = filter (\<lambda>l. l \<noteq> cb) (listeners st)
     \<and> (db st = Some rows \<and> find (\<lambda>r. pk_id r = pk_id i) rows = None \<longrightarrow>
           Feed_save env st [i]
             = (case notifyChange env st \<lparr>modify = None, change_id = pk_id i, event = i\<rparr> of
                  (Inl e, st2) \<Rightarrow> (Inl e, st2)
                | (Inr u, st2) \<Rightarrow> (Inr (), st2\<lparr>db := Some (upsert i rows)\<rparr>)))"
proof -
  let ?ok = "\<lambda>cb. \<not> listener_throws env cb data"
  obtain r calls where cl: "call_listeners (listener_throws env) (listeners st) data = (r, calls)"
    by (cases "call_listeners (listener_throws env) (listeners st) data")
  let ?st1 = "(log_msg Debug ''notifyChange'' st)\<lparr>delivered := delivered st @ calls\<rparr>"
  have n: "notifyChange env st data = (r, ?st1)"
    using cl by (simp add: notifyChange_def log_msg_def Let_def)
  have c: "calls = map (\<lambda>cb. (cb, data))
                     (takeWhile ?ok (listeners st) @ take 1 (dropWhile ?ok (listeners st)))"
    using call_listeners_prefix [of "listener_throws env" "listeners st" data] cl by simp
  have 1: "delivered ?st1 = delivered st
          @ map (\<lambda>cb. (cb, data))
              (takeWhile ?ok (listeners st) @ take 1 (dropWhile ?ok (listeners st)))"
    using c by (simp add: log_msg_def)
  have 2: "(\<forall>cb \<in> set (listeners st). ?ok cb) \<longrightarrow>
             r = Inr () \<and> delivered ?st1 = delivered st @ map (\<lambda>cb. (cb, data)) (listeners st)"
    using call_listeners_all [of "listeners st" "listener_throws env" data] cl
    by (auto simp: log_msg_def)
  have 3: "(\<exists>cb \<in> set (listeners st). listener_throws env cb data) \<longrightarrow> r = Inl (Error ''listener'')"
    using call_listeners_some [of "listeners st" "listener_throws env" data] cl by auto
  have 4: "listeners (on st cb) = listeners st @ [cb]"
    and 5: "listeners (off st cb) = filter (\<lambda>l. l \<noteq> cb) (listeners st)"
    by (simp_all add: on_def off_def)
  have 6: "db st = Some rows \<and> find (\<lambda>r. pk_id r = pk_id i) rows = None \<longrightarrow>
           Feed_save env st [i]
             = (case notifyChange env st \<lparr>modify = None, change_id = pk_id i, event = i\<rparr> of
                  (Inl e, st2) \<Rightarrow> (Inl e, st2)
                | (Inr u, st2) \<Rightarrow> (Inr (), st2\<lparr>db := Some (upsert i rows)\<rparr>))"
    by (auto simp: Feed_save_def put_row_def hook_creating_def split: prod.splits sum.splits)
  from n 1 2 3 4 5 6 show ?thesis by blast
qed

theorem notifyChange_delivery_witness:
  "listeners (off (on (on (on (example_state [] [] []) 2) 3) 4) 3) = [2, 4]
   \<and> fst (notifyChange example_env (off (on (on (on (example_state [] [] []) 2) 3) 4) 3)
            \<lparr>modify = None, change_id = Some ''a'', event = example_item ''a'' 5 None\<rparr>)
       = Inr ()
   \<and> delivered (snd (notifyChange example_env (off (on (on (on (example_state [] [] []) 2) 3) 4) 3)
            \<lparr>modify = None, change_id = Some ''a'', event = example_item ''a'' 5 None\<rparr>))
       = [(2, \<lparr>modify = None, change_id = Some ''a'', event = example_item ''a'' 5 None\<rparr>),
          (4, \<lparr>modify = None, change_id = Some ''a'', event = example_item ''a'' 5 None\<rparr>)]
   \<and> listeners (on (example_state [] [] []) 1) = [1]
   \<and> fst (notifyChange example_env (on (example_state [] [] []) 1)
            \<lparr>modify = None, change_id = Some ''a'', event = example_item ''a'' 5 None\<rparr>)
       = Inl (Error ''listener'')
   \<and> db (off (on (on (on (example_state [] [] []) 2) 3) 4) 3) = Some []
   \<and> fst (Feed_save example_env (off (on (on (on (example_state [] [] []) 2) 3) 4) 3)
            [example_item ''a'' 5 None]) = Inr ()
   \<and> db (snd (Feed_save example_env (off (on (on (on (example_state [] [] []) 2) 3) 4) 3)
            [example_item ''a'' 5 None])) = Some [example_item ''a'' 5 None]"
proof -
  let ?st = "off (on (on (on (example_state [] [] []) 2) 3) 4) 3"
  let ?s1 = "on (example_state [] [] []) 1"
  let ?i = "example_item ''a'' 5 None"
  let ?c = "\<lparr>modify = None, change_id = Some ''a'', event = ?i\<rparr>"
  have l: "listeners ?st = [2, 4]" and dl: "delivered ?st = []" and d: "db ?st = Some []"
    by (simp_all add: on_def off_def example_state_def)
  have l1: "listeners ?s1 = [1]" by (simp add: on_def example_state_def)
  have pk: "pk_id ?i = Some ''a''" by (simp add: example_item_def)
  have q: "\<forall>cb \<in> set (listeners ?st). \<not> listener_throws example_env cb ?c"
    unfolding l by (simp add: example_env_def)
  have t: "\<exists>cb \<in> set (listeners ?s1). listener_throws example_env cb ?c"
    unfolding l1 by (simp add: example_env_def)
  have nf: "db ?st = Some [] \<and> find (\<lambda>r. pk_id r = pk_id ?i) ([]::feedItem list) = None" using d by simp
  have "\<exists>r st1. notifyChange example_env ?st ?c = (r, st1)
     \<and> ((\<forall>cb \<in> set (listeners ?st). \<not> listener_throws example_env cb ?c) \<longrightarrow>
              r = Inr () \<and> delivered st1 = delivered ?st @ map (\<lambda>cb. (cb, ?c)) (listeners ?st))
     \<and> (db ?st = Some [] \<and> find (\<lambda>r. pk_id r = pk_id ?i) ([]::feedItem list) = None \<longrightarrow>
           Feed_save example_env ?st [?i]
             = (case notifyChange example_env ?st \<lparr>modify = None, change_id = pk_id ?i, event = ?i\<rparr> of
                  (Inl e, st2) \<Rightarrow> (Inl e, st2)
                | (Inr u, st2) \<Rightarrow> (Inr (), st2\<lparr>db := Some (upsert ?i [])\<rparr>)))"
    using notifyChange_delivery [of example_env ?st ?c 0 "[]" ?i]
    by (elim exE conjE) (intro exI conjI, assumption+)
  then obtain r st1 where n: "notifyChange example_env ?st ?c = (r, st1)"
    and a: "(\<forall>cb \<in> set (listeners ?st). \<not> listener_throws example_env cb ?c) \<longrightarrow>
              r = Inr () \<and> delivered st1 = delivered ?st @ map (\<lambda>cb. (cb, ?c)) (listeners ?st)"
    and s: "db ?st = Some [] \<and> find (\<lambda>r. pk_id r = pk_id ?i) ([]::feedItem list) = None \<longrightarrow>
           Feed_save example_env ?st [?i]
             = (case notifyChange example_env ?st \<lparr>modify = None, change_id = pk_id ?i, event = ?i\<rparr> of
                  (Inl e, st2) \<Rightarrow> (Inl e, st2)
                | (Inr u, st2) \<Rightarrow> (Inr (), st2\<lparr>db := Some (upsert ?i [])\<rparr>))"
    by (elim exE conjE)
  from a q have r: "r = Inr ()"
    and dv: "delivered st1 = delivered ?st @ map (\<lambda>cb. (cb, ?c)) (listeners ?st)"
    by blast+
  from dv have dv2: "delivered st1 = [(2, ?c), (4, ?c)]" unfolding l dl by simp
  from s nf have "Feed_save example_env ?st [?i]
             = (case notifyChange example_env ?st \<lparr>modify = None, change_id = pk_id ?i, event = ?i\<rparr> of
                  (Inl e, st2) \<Rightarrow> (Inl e, st2)
                | (Inr u, st2) \<Rightarrow> (Inr (), st2\<lparr>db := Some (upsert ?i [])\<rparr>))"
    by blast
  then have fs: "Feed_save example_env ?st [?i] = (Inr (), st1\<lparr>db := Some [?i]\<rparr>)"
    unfolding pk n r by simp
  have "\<exists>r1 st2. notifyChange example_env ?s1 ?c = (r1, st2)
     \<and> ((\<exists>cb \<in> set (listeners ?s1). listener_throws example_env cb ?c) \<longrightarrow>
              r1 = Inl (Error ''listener''))"
    using notifyChange_delivery [of example_env ?s1 ?c 0 "[]" ?i]
    by (elim exE conjE) (intro exI conjI, assumption+)
  then obtain r1 st2 where n1: "notifyChange example_env ?s1 ?c = (r1, st2)"
    and b: "(\<exists>cb \<in> set (listeners ?s1). listener_throws example_env cb ?c) \<longrightarrow>
              r1 = Inl (Error ''listener'')"
    by (elim exE conjE)
  from b t have r1: "r1 = Inl (Error ''listener'')" by blast
  from l n r dv2 l1 n1 r1 d fs show ?thesis by simp
qed

section \<open>Settings: C9\<close>

text \<open>
  C9. Let the key pair decrypt what it encrypted for the serialized settings value
  \<open>s\<close>, with a ciphertext that is not empty, and let parsing undo the serialization
  of \<open>s\<close>. Then after an \<open>encryptSettings(s)\<close> that was fulfilled, a
  \<open>decryptSettings()\<close> whose fetch is answered returns \<open>s\<close>. And for a logged-in
  user without a settings document, \<open>decryptSettings()\<close> returns the empty object.
\<close>

theorem settings_roundtrip:
  assumes kp: "\<forall>c. public_encrypt env (stringify_settings env s) = Some c \<longrightarrow>
                 c \<noteq> [] \<and> private_decrypt env c = Some (stringify_settings env s)"
      and js: "parse_settings env (stringify_settings env s) = Some s"
  shows "(\<forall>r st1. encryptSettings env st s = (Inr r, st1) \<and> next_call_ok st1 \<longrightarrow>
             fst (decryptSettings env st1) = Inr s)
       \<and> (\<forall>uid. user st = Some uid
              \<and> find (\<lambda>d. doc_id d = uid @ ''_settings'') (encryptedFeed st) = None
              \<and> next_call_ok st \<longrightarrow>
             fst (decryptSettings env st) = Inr (empty_object env))"
proof (intro conjI allI impI)
  fix r st1
  assume a: "encryptSettings env st s = (Inr r, st1) \<and> next_call_ok st1"
  then obtain c uid where c: "public_encrypt env (stringify_settings env s) = Some c"
      and u: "user st = Some uid"
      and up: "updateOne (log_msg Debug ''encryptSettings:'' st) (uid @ ''_settings'') uid
                 \<lparr>doc_id = uid @ ''_settings'', user_id = uid, txHash = None, doc_date = None,
                  encrypted = c\<rparr> = (Inr r, st1)"
    by (auto simp: encryptSettings_def Let_def split: option.splits)
  let ?doc = "\<lparr>doc_id = uid @ ''_settings'', user_id = uid, txHash = None, doc_date = None,
                  encrypted = c\<rparr>"
  from updateOne_found [OF up]
  have f: "find (\<lambda>d. doc_id d = uid @ ''_settings'') (encryptedFeed st1) = Some ?doc"
    and u1: "user st1 = Some uid"
    using u by (simp_all add: log_msg_def)
  from kp c have ne: "c \<noteq> []" and dec: "private_decrypt env c = Some (stringify_settings env s)"
    by simp_all
  let ?q = "FindOne (uid @ ''_settings'')"
  obtain b st2 where rc: "remote_call st1 ?q = (b, st2)" by (cases "remote_call st1 ?q")
  have b: "b" using a rc remote_call_ok [of st1 ?q] by simp
  have e2: "encryptedFeed st2 = encryptedFeed st1"
    using rc remote_call_frame [of st1 ?q] by simp
  show "fst (decryptSettings env st1) = Inr s"
    using u1 rc b e2 f ne dec js
    by (simp add: decryptSettings_def findOne_def Let_def)
next
  fix uid
  assume a: "user st = Some uid
              \<and> find (\<lambda>d. doc_id d = uid @ ''_settings'') (encryptedFeed st) = None
              \<and> next_call_ok st"
  let ?q = "FindOne (uid @ ''_settings'')"
  obtain b st2 where rc: "remote_call st ?q = (b, st2)" by (cases "remote_call st ?q")
  have b: "b" using a rc remote_call_ok [of st ?q] by simp
  have e2: "encryptedFeed st2 = encryptedFeed st"
    using rc remote_call_frame [of st ?q] by simp
  show "fst (decryptSettings env st) = Inr (empty_object env)"
    using a rc b e2 by (simp add: decryptSettings_def findOne_def Let_def)
qed

theorem settings_roundtrip_witness:
  "fst (encryptSettings example_env (example_state [] [] []) ''{a:1}'') = Inr Upserted
   \<and> fst (decryptSettings example_env
            (snd (encryptSettings example_env (example_state [] [] []) ''{a:1}'')))
       = Inr ''{a:1}''
   \<and> fst (decryptSettings example_env (example_state [] [] [])) = Inr ''{}''"
proof -
  let ?st = "example_state [] [] []"
  let ?s = "''{a:1}''"
  have kp: "\<forall>c. public_encrypt example_env (stringify_settings example_env ?s) = Some c \<longrightarrow>
                 c \<noteq> [] \<and> private_decrypt example_env c = Some (stringify_settings example_env ?s)"
    by (simp add: example_env_def)
  have js: "parse_settings example_env (stringify_settings example_env ?s) = Some ?s"
    by (simp add: example_env_def)
  obtain r st1 where e: "encryptSettings example_env ?st ?s = (r, st1)"
    by (cases "encryptSettings example_env ?st ?s")
  have r: "r = Inr Upserted" and n1: "next_call_ok st1"
    using e
    by (auto simp: encryptSettings_def example_env_def example_state_def updateOne_def
          remote_call_def log_msg_def next_call_ok_def Let_def)
  have u: "user ?st = Some ''u1''"
    and f: "find (\<lambda>d. doc_id d = ''u1'' @ ''_settings'') (encryptedFeed ?st) = None"
    and n: "next_call_ok ?st"
    by (simp_all add: example_state_def next_call_ok_def)
  have em: "empty_object example_env = ''{}''" by (simp add: example_env_def)
  from settings_roundtrip [OF kp js, of ?st] e r n1 u f n em
  show ?thesis by auto
qed

end
